theory Spec2Isabelle
  imports Complex_Main "HOL-Library.Sublist"
begin

section \<open>JavaScript string operations used by the PDF utilities\<close>

text \<open>
  A JavaScript string is modelled as a \<^typ>\<open>string\<close>: one \<^typ>\<open>char\<close> per code unit, for
  the code units below 256. A \<open>number\<close> that comes from the caller or is computed from one
  (a page number, a chunk size) is a \<^typ>\<open>rat\<close>: it need not be whole, its arithmetic,
  \<open>Math.min\<close>, \<open>Math.max\<close> and \<open>Math.floor\<close> are exact, and the rounding of doubles is not
  modelled. A number that is whole by construction (the result of \<open>parseInt\<close>, an index, a
  length) is an \<^typ>\<open>int\<close> or a \<^typ>\<open>nat\<close>.
\<close>

text \<open>\<open>s.split(sep)\<close> for a separator of one character; the result is never empty.\<close>

fun split_on :: "char \<Rightarrow> string \<Rightarrow> string list" where
  "split_on sep [] = [[]]"
| "split_on sep (c # cs) =
     (if c = sep then [] # split_on sep cs
      else (case split_on sep cs of
              [] \<Rightarrow> [[c]]
            | p # ps \<Rightarrow> (c # p) # ps))"

text \<open>\<open>parts[parts.length - 1]\<close> on the result of \<open>split\<close>.\<close>

definition last_part :: "string \<Rightarrow> string" where
  "last_part url = last (split_on (CHR ''/'') url)"

text \<open>\<open>s.includes(sub)\<close>.\<close>

fun str_includes :: "string \<Rightarrow> string \<Rightarrow> bool" where
  "str_includes [] sub = (sub = [])"
| "str_includes (c # cs) sub = (prefix sub (c # cs) \<or> str_includes cs sub)"

text \<open>\<open>s.endsWith(suf)\<close>.\<close>

definition endsWith :: "string \<Rightarrow> string \<Rightarrow> bool" where
  "endsWith s suf = prefix (rev suf) (rev s)"

text \<open>\<open>s.replace(pat, rep)\<close> with a string pattern: only the first occurrence is replaced.\<close>

fun replace_first :: "string \<Rightarrow> string \<Rightarrow> string \<Rightarrow> string" where
  "replace_first pat rep [] = (if pat = [] then rep else [])"
| "replace_first pat rep (c # cs) =
     (if prefix pat (c # cs) then rep @ drop (length pat) (c # cs)
      else c # replace_first pat rep cs)"

text \<open>\<open>s.replace(/\.pdf$/, '')\<close>: a final \<open>.pdf\<close> is removed.\<close>

definition strip_pdf_suffix :: "string \<Rightarrow> string" where
  "strip_pdf_suffix s =
     (if endsWith s ''.pdf'' then take (length s - 4) s else s)"

text \<open>\<open>s.replace(/[_-]/g, ' ')\<close>.\<close>

definition unders_to_spaces :: "string \<Rightarrow> string" where
  "unders_to_spaces s = map (\<lambda>c. if c = CHR ''_'' \<or> c = CHR ''-'' then CHR '' '' else c) s"

definition is_digit :: "char \<Rightarrow> bool" where
  "is_digit c = (let n = (of_char c :: nat) in 48 \<le> n \<and> n \<le> 57)"

definition is_alpha :: "char \<Rightarrow> bool" where
  "is_alpha c = (let n = (of_char c :: nat) in (65 \<le> n \<and> n \<le> 90) \<or> (97 \<le> n \<and> n \<le> 122))"

text \<open>The regular expression class \<open>\w\<close>.\<close>

definition is_word_char :: "char \<Rightarrow> bool" where
  "is_word_char c = (is_alpha c \<or> is_digit c \<or> c = CHR ''_'')"

text \<open>White space of \<open>\s\<close>, \<open>trim\<close> and \<open>parseInt\<close>, as far as it lies in one byte:
  tab, line feed, vertical tab, form feed, carriage return, space, no-break space.\<close>

definition is_space :: "char \<Rightarrow> bool" where
  "is_space c = (let n = (of_char c :: nat) in (9 \<le> n \<and> n \<le> 13) \<or> n = 32 \<or> n = 160)"

definition trim :: "string \<Rightarrow> string" where
  "trim s = rev (dropWhile is_space (rev (dropWhile is_space s)))"

text \<open>Decimal rendering of a number in a template literal.\<close>

definition digit_char :: "nat \<Rightarrow> char" where
  "digit_char d = char_of (48 + d)"

fun show_nat :: "nat \<Rightarrow> string" where
  "show_nat n = (if n < 10 then [digit_char n] else show_nat (n div 10) @ [digit_char (n mod 10)])"

declare show_nat.simps [simp del]

definition show_int :: "int \<Rightarrow> string" where
  "show_int i = (if i < 0 then CHR ''-'' # show_nat (nat (- i)) else show_nat (nat i))"

type_synonym number = rat

text \<open>The digits after the point, at most as many as the first argument says.\<close>

fun fraction_digits :: "nat \<Rightarrow> rat \<Rightarrow> string" where
  "fraction_digits n f =
     (if n = 0 \<or> f = 0 then []
      else digit_char (nat \<lfloor>10 * f\<rfloor>) # fraction_digits (n - 1) (frac (10 * f)))"

declare fraction_digits.simps [simp del]

text \<open>Rendering of a number in a template literal and by \<open>JSON.stringify\<close>: a whole number
  as its decimal digits, another one with the digits of its fraction after a point (1.5,
  2.5, 0.75). JavaScript prints the shortest digits that read back as the same double;
  here the fraction is cut after 17 digits instead.\<close>

definition show_number :: "number \<Rightarrow> string" where
  "show_number x =
     (let digits = fraction_digits 17 (frac \<bar>x\<bar>)
      in (if x < 0 then ''-'' else []) @ show_nat (nat \<lfloor>\<bar>x\<bar>\<rfloor>)
           @ (if digits = [] then [] else CHR ''.'' # digits))"


section \<open>PDFUtils.downloadPDF: the stored file name\<close>

text \<open>\<open>pdfUrl.match(/arxiv\.org\/pdf\/([^\/]+)/)?.[1]\<close>: the leftmost place where
  \<open>arxiv.org/pdf/\<close> is followed by at least one character other than \<open>/\<close>; the group is
  the longest run of such characters.\<close>

fun match_arxiv_id :: "string \<Rightarrow> string option" where
  "match_arxiv_id [] = None"
| "match_arxiv_id (c # cs) =
     (let s = c # cs; pat = ''arxiv.org/pdf/'';
          grp = takeWhile (\<lambda>x. x \<noteq> CHR ''/'') (drop (length pat) s)
      in if prefix pat s \<and> grp \<noteq> [] then Some grp else match_arxiv_id cs)"

text \<open>\<open>/[^a-zA-Z0-9._-]/g\<close> replaced by \<open>_\<close>.\<close>

definition sanitize_char :: "char \<Rightarrow> char" where
  "sanitize_char c =
     (if is_alpha c \<or> is_digit c \<or> c = CHR ''.'' \<or> c = CHR ''_'' \<or> c = CHR ''-''
      then c else CHR ''_'')"

definition sanitize :: "string \<Rightarrow> string" where
  "sanitize s = map sanitize_char s"

text \<open>Lines 41 to 56 of the source: the name made from the URL when the caller gave none.
  \<open>now\<close> is the value of \<open>Date.now()\<close>.\<close>

definition filename_from_url :: "nat \<Rightarrow> string \<Rightarrow> string" where
  "filename_from_url now pdfUrl =
     (let baseFilename = last_part pdfUrl;
          baseFilename' =
            (if str_includes baseFilename ''arxiv.org'' then
               (let arxivId = (case match_arxiv_id pdfUrl of
                                 Some i \<Rightarrow> i
                               | None \<Rightarrow> ''unknown'')
                in ''arxiv_'' @ arxivId)
             else if str_includes baseFilename ''scholar.google'' then
               ''scholar_'' @ show_nat now
             else
               (let b = replace_first ''.pdf'' [] baseFilename
                in if b = [] then ''paper_'' @ show_nat now else b))
      in baseFilename' @ ''.pdf'')"

text \<open>Lines 41 to 64: the name under which the bytes are stored.\<close>

definition stored_filename :: "nat \<Rightarrow> string \<Rightarrow> string option \<Rightarrow> string" where
  "stored_filename now pdfUrl filename =
     (let filename1 = (case filename of
                         None \<Rightarrow> filename_from_url now pdfUrl
                       | Some f \<Rightarrow> if f = [] then filename_from_url now pdfUrl else f);
          filename2 = (if \<not> endsWith filename1 ''.pdf'' then filename1 @ ''.pdf'' else filename1)
      in sanitize filename2)"


section \<open>The outside world\<close>

text \<open>
  What the utilities reach outside the process is a parameter of the model:
  \<^item> \<open>http_get\<close>: \<open>axios.get(pdfUrl, ...)\<close>, the message of the error it throws (\<open>Inl\<close>) or
    the bytes of the response;
  \<^item> \<open>arxiv_query\<close>: the request to \<open>export.arxiv.org/api/query\<close> for one
    \<open>search_query\<close> followed by \<open>parseXML\<close>: \<open>None\<close> when either throws, else the entries
    of the feed (the empty list when the feed has no \<open>entry\<close>), each entry the list of its
    links as pairs of \<open>type\<close> and \<open>href\<close>;
  \<^item> \<open>url_searchParams\<close>: \<open>new URL(url).searchParams\<close> as the list of its pairs, \<open>None\<close>
    when \<open>new URL\<close> throws;
  \<^item> \<open>decodeURIComponent\<close>: \<open>None\<close> when it throws;
  \<^item> \<open>date_now\<close>: \<open>Date.now()\<close>;
  \<^item> \<open>downloadsDir\<close>: the private field of that name;
  \<^item> \<open>existsSync\<close>: \<open>fs.existsSync\<close>;
  \<^item> \<open>exec\<close>: \<open>execAsync(command)\<close>, the message of the error it rejects with (\<open>Inl\<close>) or
    its \<open>stdout\<close>.
\<close>

type_synonym link = "string \<times> string"
type_synonym entry = "link list"

record world =
  http_get :: "string \<Rightarrow> string + string"
  arxiv_query :: "string \<Rightarrow> entry list option"
  url_searchParams :: "string \<Rightarrow> (string \<times> string) list option"
  decodeURIComponent :: "string \<Rightarrow> string option"
  date_now :: nat
  downloadsDir :: string
  existsSync :: "string \<Rightarrow> bool"
  exec :: "string \<Rightarrow> string + string"

text \<open>The downloads directory: the names in the order \<open>readdirSync\<close> lists them, each a file
  with its bytes or a subdirectory.\<close>

datatype node = File string | Directory

type_synonym directory = "(string \<times> node) list"

text \<open>What one call does outside, in order.\<close>

datatype event =
    Fetch string
  | WriteFile string
  | TitleInference
  | Resolver string
  | ArxivRequest string

record state =
  dir :: directory
  trace :: "event list"


section \<open>PDFUtils.isPaywalledSource\<close>

definition paywalledDomains :: "string list" where
  "paywalledDomains =
     [''scholar.google.com'', ''sciencedirect.com'', ''ieee.org'', ''acm.org'',
      ''springer.com'', ''wiley.com'', ''tandfonline.com'', ''sagepub.com'',
      ''taylorfrancis.com'', ''emerald.com'', ''jstor.org'']"

definition isPaywalledSource :: "string \<Rightarrow> bool" where
  "isPaywalledSource url = list_ex (\<lambda>domain. str_includes url domain) paywalledDomains"


section \<open>PDFUtils.extractTitleFromUrl\<close>

text \<open>\<open>a || b\<close> on optional strings: \<open>a\<close> when it is present and not empty, else \<open>b\<close>.\<close>

definition or_else :: "string option \<Rightarrow> string option \<Rightarrow> string option" where
  "or_else a b = (case a of None \<Rightarrow> b | Some s \<Rightarrow> if s = [] then b else Some s)"

text \<open>Lines 172 to 177: the title taken from the file name; \<open>None\<close> when the function goes on.\<close>

definition title_from_filename :: "string option \<Rightarrow> string option" where
  "title_from_filename filename =
     (case filename of
        None \<Rightarrow> None
      | Some f \<Rightarrow>
          if f = [] then None
          else (let cleanFilename = unders_to_spaces (strip_pdf_suffix f)
                in if length cleanFilename > 10 then Some cleanFilename else None))"

text \<open>Lines 180 to 190: the title taken from the query parameters; \<open>None\<close> when the function
  goes on, which it also does when \<open>new URL\<close> or \<open>decodeURIComponent\<close> throws.\<close>

definition title_from_params :: "world \<Rightarrow> string \<Rightarrow> string option" where
  "title_from_params w url =
     (case url_searchParams w url of
        None \<Rightarrow> None
      | Some ps \<Rightarrow>
          (let titleParam = or_else (or_else (map_of ps ''title'') (map_of ps ''q''))
                                    (map_of ps ''query'')
           in case titleParam of
                None \<Rightarrow> None
              | Some t \<Rightarrow> if t = [] then None else decodeURIComponent w t))"

text \<open>Lines 193 to 199: the title taken from the last path segment.\<close>

definition title_from_path :: "string \<Rightarrow> string option" where
  "title_from_path url =
     (let lastPart = last_part url
      in if lastPart \<noteq> [] \<and> length lastPart > 10 \<and> \<not> str_includes lastPart ''.''
         then Some (unders_to_spaces lastPart) else None)"

definition extractTitleFromUrl :: "world \<Rightarrow> string \<Rightarrow> string option \<Rightarrow> string option" where
  "extractTitleFromUrl w url filename =
     (case title_from_filename filename of
        Some t \<Rightarrow> Some t
      | None \<Rightarrow>
          (case title_from_params w url of
             Some t \<Rightarrow> Some t
           | None \<Rightarrow> title_from_path url))"


section \<open>PDFUtils.findPaperOnArxiv\<close>

text \<open>\<open>entries[0].link.find(link => link.$.type === 'application/pdf')?.$.href || null\<close>
  after \<open>entries.length > 0\<close>.\<close>

definition first_pdf_link :: "entry list \<Rightarrow> string option" where
  "first_pdf_link entries =
     (case entries of
        [] \<Rightarrow> None
      | e # _ \<Rightarrow>
          (case find (\<lambda>l. fst l = ''application/pdf'') e of
             None \<Rightarrow> None
           | Some l \<Rightarrow> if snd l = [] then None else Some (snd l)))"

text \<open>\<open>title.replace(/[^\w\s]/g, ' ').trim()\<close>.\<close>

definition fallbackQuery :: "string \<Rightarrow> string" where
  "fallbackQuery title =
     trim (map (\<lambda>c. if is_word_char c \<or> is_space c then c else CHR '' '') title)"

definition searchQuery :: "string \<Rightarrow> string" where
  "searchQuery title = ''ti:'' @ [CHR 0x22] @ title @ [CHR 0x22]"

text \<open>The result, and the queries sent, in order. An error of either request is caught and
  gives \<open>null\<close>.\<close>

definition findPaperOnArxiv :: "world \<Rightarrow> string \<Rightarrow> string option \<times> string list" where
  "findPaperOnArxiv w title =
     (case arxiv_query w (searchQuery title) of
        None \<Rightarrow> (None, [searchQuery title])
      | Some entries \<Rightarrow>
          if entries = [] then
            (case arxiv_query w (fallbackQuery title) of
               None \<Rightarrow> (None, [searchQuery title, fallbackQuery title])
             | Some entries' \<Rightarrow>
                 (first_pdf_link entries', [searchQuery title, fallbackQuery title]))
          else (first_pdf_link entries, [searchQuery title]))"


section \<open>PDFUtils.downloadPDF\<close>

text \<open>\<open>fs.writeFileSync\<close> into the downloads directory: it throws when the name is that of
  a subdirectory, replaces the bytes of a file of that name, and else adds the file.\<close>

definition writeFileSync :: "directory \<Rightarrow> string \<Rightarrow> string \<Rightarrow> string + directory" where
  "writeFileSync d name bytes =
     (case map_of d name of
        Some Directory \<Rightarrow> Inl (''EISDIR: illegal operation on a directory, open '' @ name)
      | Some (File _) \<Rightarrow> Inr (map (\<lambda>p. if fst p = name then (name, File bytes) else p) d)
      | None \<Rightarrow> Inr (d @ [(name, File bytes)]))"

text \<open>
  The body of \<open>try\<close> (lines 32 to 72): \<open>Inr\<close> the file path and the new state, or \<open>Inl\<close> the
  message of the error thrown, with the value the variable \<open>filename\<close> has at that moment
  (lines 41 to 64 have assigned it when the write throws).
\<close>

definition fetch_and_store ::
  "world \<Rightarrow> string \<Rightarrow> string option \<Rightarrow> state \<Rightarrow> (string \<times> string option) + (string \<times> state)" where
  "fetch_and_store w pdfUrl filename st =
     (case http_get w pdfUrl of
        Inl msg \<Rightarrow> Inl (msg, filename)
      | Inr bytes \<Rightarrow>
          (let name = stored_filename (date_now w) pdfUrl filename
           in case writeFileSync (dir st) name bytes of
                Inl msg \<Rightarrow> Inl (msg, Some name)
              | Inr d \<Rightarrow>
                  Inr (downloadsDir w @ ''/'' @ name,
                       st\<lparr>dir := d, trace := trace st @ [WriteFile name]\<rparr>)))"

text \<open>
  \<open>downloadPDF\<close> calls itself on the URL the resolver returns, with nothing in the source
  that bounds the depth: the first argument is the number of nested calls allowed, and
  \<open>None\<close> says that it did not suffice. The result is \<open>Inl\<close> the message of the error
  thrown or \<open>Inr\<close> the file path.
\<close>

fun downloadPDF ::
  "nat \<Rightarrow> world \<Rightarrow> string \<Rightarrow> string option \<Rightarrow> state \<Rightarrow> ((string + string) \<times> state) option" where
  "downloadPDF 0 w pdfUrl filename st = None"
| "downloadPDF (Suc n) w pdfUrl filename st =
     (let st1 = st\<lparr>trace := trace st @ [Fetch pdfUrl]\<rparr>
      in case fetch_and_store w pdfUrl filename st1 of
           Inr (filepath, st2) \<Rightarrow> Some (Inr filepath, st2)
         | Inl (msg, filename') \<Rightarrow>
             (let failure = Inl (''Failed to download PDF: '' @ msg)
              in if isPaywalledSource pdfUrl then
                   (let st2 = st1\<lparr>trace := trace st1 @ [TitleInference]\<rparr>
                    in case extractTitleFromUrl w pdfUrl filename' of
                         None \<Rightarrow> Some (failure, st2)
                       | Some paperTitle \<Rightarrow>
                           if paperTitle = [] then Some (failure, st2)
                           else
                             (let found = findPaperOnArxiv w paperTitle;
                                  st3 = st2\<lparr>trace := trace st2 @ Resolver paperTitle
                                                # map ArxivRequest (snd found)\<rparr>
                              in case fst found of
                                   None \<Rightarrow> Some (failure, st3)
                                 | Some arxivPdfUrl \<Rightarrow>
                                     (case downloadPDF n w arxivPdfUrl filename' st3 of
                                        None \<Rightarrow> None
                                      | Some (Inr filepath, st4) \<Rightarrow> Some (Inr filepath, st4)
                                      | Some (Inl _, st4) \<Rightarrow> Some (failure, st4))))
                 else Some (failure, st1)))"

text \<open>The fetches and the calls of the resolver among the events.\<close>

fun is_fetch :: "event \<Rightarrow> bool" where
  "is_fetch (Fetch _) = True"
| "is_fetch _ = False"

fun is_resolver :: "event \<Rightarrow> bool" where
  "is_resolver (Resolver _) = True"
| "is_resolver _ = False"

definition fetches :: "event list \<Rightarrow> nat" where
  "fetches evs = length (filter is_fetch evs)"

definition resolver_calls :: "event list \<Rightarrow> nat" where
  "resolver_calls evs = length (filter is_resolver evs)"


section \<open>PDFUtils.readPDFText\<close>

definition quoted :: "string \<Rightarrow> string" where
  "quoted s = CHR 0x22 # s @ [CHR 0x22]"

text \<open>Lines 211 to 220: the command line. An end page without a start page is not used.\<close>

definition pdftotext_command :: "string \<Rightarrow> number option \<Rightarrow> number option \<Rightarrow> string" where
  "pdftotext_command filepath startPage endPage =
     (case startPage of
        None \<Rightarrow> ''pdftotext '' @ quoted filepath @ '' -''
      | Some s \<Rightarrow>
          ''pdftotext -f '' @ show_number s
            @ (case endPage of None \<Rightarrow> [] | Some e \<Rightarrow> '' -l '' @ show_number e)
            @ '' '' @ quoted filepath @ '' -'')"

definition extraction_failed :: string where
  "extraction_failed =
     ''PDF text extraction failed. Please ensure pdftotext is installed (brew install poppler on macOS).''"

text \<open>\<open>Inl\<close> is the message of the error thrown, \<open>Inr\<close> the text returned.\<close>

definition readPDFText ::
  "world \<Rightarrow> string \<Rightarrow> number option \<Rightarrow> number option \<Rightarrow> string + string" where
  "readPDFText w filepath startPage endPage =
     (if \<not> existsSync w filepath
      then Inl (''Failed to read PDF: '' @ ''PDF file not found: '' @ filepath)
      else (case exec w (pdftotext_command filepath startPage endPage) of
              Inr stdout \<Rightarrow> Inr stdout
            | Inl _ \<Rightarrow> Inr extraction_failed))"


section \<open>PDFUtils.readPDFTextChunked\<close>

text \<open>\<open>parseInt(s)\<close> with no radix: white space, a sign, \<open>0x\<close> for base sixteen, then the
  longest run of digits; \<open>None\<close> is \<open>NaN\<close>. Numbers are not rounded to doubles.\<close>

definition digit_value :: "char \<Rightarrow> nat" where
  "digit_value c =
     (let n = (of_char c :: nat)
      in if 48 \<le> n \<and> n \<le> 57 then n - 48
         else if 97 \<le> n \<and> n \<le> 122 then n - 87
         else if 65 \<le> n \<and> n \<le> 90 then n - 55
         else 36)"

definition digits_value :: "nat \<Rightarrow> string \<Rightarrow> nat" where
  "digits_value radix ds = foldl (\<lambda>acc c. acc * radix + digit_value c) 0 ds"

definition parseInt :: "string \<Rightarrow> int option" where
  "parseInt s =
     (let s1 = dropWhile is_space s;
          negative = (s1 \<noteq> [] \<and> hd s1 = CHR ''-'');
          s2 = (if s1 \<noteq> [] \<and> (hd s1 = CHR ''-'' \<or> hd s1 = CHR ''+'') then tl s1 else s1);
          hex = (prefix ''0x'' s2 \<or> prefix ''0X'' s2);
          radix = (if hex then 16 else 10);
          s3 = (if hex then drop 2 s2 else s2);
          ds = takeWhile (\<lambda>c. digit_value c < radix) s3
      in if ds = [] then None
         else Some ((if negative then - 1 else 1) * int (digits_value radix ds)))"

text \<open>Lines 247 to 251: \<open>parseInt(pageInfo.split(':')[1].trim()) || 0\<close> and the test for
  zero. Without a colon \<open>[1]\<close> is \<open>undefined\<close> and \<open>trim\<close> throws a TypeError.\<close>

definition parse_page_count :: "string \<Rightarrow> string + int" where
  "parse_page_count pageInfo =
     (case split_on (CHR '':'') pageInfo of
        _ # p # _ \<Rightarrow>
          (let totalPages = (case parseInt (trim p) of None \<Rightarrow> 0 | Some n \<Rightarrow> n)
           in if totalPages = 0 then Inl ''Could not determine PDF page count''
              else Inr totalPages)
      | _ \<Rightarrow> Inl (''Cannot read properties of undefined (reading '' @ [CHR 0x27] @ ''trim''
                  @ [CHR 0x27] @ '')''))"

text \<open>
  Lines 253 to 260, the loop \<open>for (startPage = 1; startPage <= totalPages; startPage += chunkSize)\<close>
  with the array \<open>chunks\<close> as accumulator. The chunk size and the start page are numbers,
  whole or not; the page count is whole. With a chunk size of 0 or less the loop does not
  end, and the value is \<open>None\<close>.
\<close>

partial_function (option) read_chunks ::
  "world \<Rightarrow> string \<Rightarrow> number \<Rightarrow> int \<Rightarrow> number \<Rightarrow> string list
     \<Rightarrow> (string + string list) option" where
  "read_chunks w filepath chunkSize totalPages startPage chunks =
     (if startPage \<le> of_int totalPages then
        (let endPage = min (startPage + chunkSize - 1) (of_int totalPages)
         in case readPDFText w filepath (Some startPage) (Some endPage) of
              Inl msg \<Rightarrow> Some (Inl msg)
            | Inr chunkText \<Rightarrow>
                read_chunks w filepath chunkSize totalPages (startPage + chunkSize)
                  (chunks @ [chunkText]))
      else Some (Inr chunks))"

declare read_chunks.simps [code]

text \<open>Line 246: the command that asks for the number of pages.\<close>

definition pdfinfo_command :: "string \<Rightarrow> string" where
  "pdfinfo_command filepath = ''pdfinfo '' @ quoted filepath @ '' | grep Pages''"

definition readPDFTextChunked ::
  "world \<Rightarrow> string \<Rightarrow> number \<Rightarrow> (string + string list \<times> int) option" where
  "readPDFTextChunked w filepath chunkSize =
     (let failed = (\<lambda>msg. Inl (''Failed to read PDF in chunks: '' @ msg))
      in if \<not> existsSync w filepath then Some (failed (''PDF file not found: '' @ filepath))
         else (case exec w (pdfinfo_command filepath) of
                 Inl msg \<Rightarrow> Some (failed msg)
               | Inr pageInfo \<Rightarrow>
                   (case parse_page_count pageInfo of
                      Inl msg \<Rightarrow> Some (failed msg)
                    | Inr totalPages \<Rightarrow>
                        (case read_chunks w filepath chunkSize totalPages 1 [] of
                           None \<Rightarrow> None
                         | Some (Inl msg) \<Rightarrow> Some (failed msg)
                         | Some (Inr chunks) \<Rightarrow> Some (Inr (chunks, totalPages))))))"


section \<open>PDFUtils.listDownloadedPDFs and PDFUtils.cleanupDownloads\<close>

definition listDownloadedPDFs :: "world \<Rightarrow> directory \<Rightarrow> string list" where
  "listDownloadedPDFs w d =
     map (\<lambda>file. downloadsDir w @ ''/'' @ file)
       (filter (\<lambda>file. endsWith file ''.pdf'') (map fst d))"

text \<open>\<open>fs.unlinkSync\<close>: it throws on a name that is absent and on a subdirectory.\<close>

definition unlinkSync :: "directory \<Rightarrow> string \<Rightarrow> string + directory" where
  "unlinkSync d name =
     (case map_of d name of
        None \<Rightarrow> Inl (''ENOENT: no such file or directory, unlink '' @ name)
      | Some Directory \<Rightarrow> Inl (''EPERM: operation not permitted, unlink '' @ name)
      | Some (File _) \<Rightarrow> Inr (filter (\<lambda>p. fst p \<noteq> name) d))"

text \<open>\<open>files.forEach(file => fs.unlinkSync(...))\<close>: the first error ends the loop, with the
  directory as it is then.\<close>

fun unlink_each :: "string list \<Rightarrow> directory \<Rightarrow> (string \<times> directory) + directory" where
  "unlink_each [] d = Inr d"
| "unlink_each (file # files) d =
     (case unlinkSync d file of
        Inl msg \<Rightarrow> Inl (msg, d)
      | Inr d' \<Rightarrow> unlink_each files d')"

text \<open>The directory afterwards and the line written by \<open>console.error\<close>; the function itself
  returns nothing.\<close>

definition cleanupDownloads :: "directory \<Rightarrow> directory \<times> string" where
  "cleanupDownloads d =
     (let files = map fst d
      in case unlink_each files d of
           Inr d' \<Rightarrow> (d', ''Cleaned up '' @ show_nat (length files) @ '' downloaded files'')
         | Inl (msg, d') \<Rightarrow> (d', ''Error cleaning up downloads: '' @ msg))"


section \<open>JSON.stringify(value, null, 2)\<close>

datatype json =
    JString string
  | JNumber number
  | JBool bool
  | JArray "json list"
  | JObject "(string \<times> json) list"

definition hex_digit :: "nat \<Rightarrow> char" where
  "hex_digit d = (if d < 10 then char_of (48 + d) else char_of (87 + d))"

definition json_escape :: "char \<Rightarrow> string" where
  "json_escape c =
     (let n = (of_char c :: nat)
      in if n = 34 then [CHR 0x5C, CHR 0x22]
         else if n = 92 then [CHR 0x5C, CHR 0x5C]
         else if n = 8 then [CHR 0x5C, CHR ''b'']
         else if n = 12 then [CHR 0x5C, CHR ''f'']
         else if n = 10 then [CHR 0x5C, CHR ''n'']
         else if n = 13 then [CHR 0x5C, CHR ''r'']
         else if n = 9 then [CHR 0x5C, CHR ''t'']
         else if n < 32 then [CHR 0x5C, CHR ''u'', CHR ''0'', CHR ''0'',
                              hex_digit (n div 16), hex_digit (n mod 16)]
         else [c])"

definition json_quote :: "string \<Rightarrow> string" where
  "json_quote s = CHR 0x22 # concat (map json_escape s) @ [CHR 0x22]"

definition newline_indent :: "nat \<Rightarrow> string" where
  "newline_indent k = CHR 0x0A # replicate k (CHR '' '')"

fun join :: "string \<Rightarrow> string list \<Rightarrow> string" where
  "join sep [] = []"
| "join sep [x] = x"
| "join sep (x # y # ys) = x @ sep @ join sep (y # ys)"

text \<open>The first argument is the indentation of the line the value starts on.\<close>

fun stringify :: "nat \<Rightarrow> json \<Rightarrow> string" where
  "stringify k (JString s) = json_quote s"
| "stringify k (JNumber x) = show_number x"
| "stringify k (JBool b) = (if b then ''true'' else ''false'')"
| "stringify k (JArray vs) =
     (if vs = [] then ''[]''
      else ''['' @ newline_indent (k + 2)
             @ join ('','' @ newline_indent (k + 2)) (map (stringify (k + 2)) vs)
             @ newline_indent k @ '']'')"
| "stringify k (JObject kvs) =
     (if kvs = [] then ''{}''
      else ''{'' @ newline_indent (k + 2)
             @ join ('','' @ newline_indent (k + 2))
                 (map (\<lambda>kv. json_quote (fst kv) @ '': '' @ stringify (k + 2) (snd kv)) kvs)
             @ newline_indent k @ ''}'')"


section \<open>The tool handlers\<close>

text \<open>What a handler returns: the object whose \<open>JSON.stringify(..., null, 2)\<close> is the text of
  the content, or the text of the error result made by the \<open>catch\<close> of the request handler.\<close>

datatype tool_result = Content json | IsError string

definition error_result :: "string \<Rightarrow> tool_result" where
  "error_result msg = IsError (''Error: '' @ msg)"

record chunk =
  chunkIndex :: nat
  startPage :: number
  endPage :: number
  chunkText :: string

text \<open>Lines 662 to 667: \<open>result.chunks.map((chunk, index) => ...)\<close>. The index is whole, the
  working chunk size any number.\<close>

definition chunk_entries :: "number \<Rightarrow> int \<Rightarrow> string list \<Rightarrow> chunk list" where
  "chunk_entries currentChunkSize totalPages cs =
     map (\<lambda>(index, c).
            \<lparr>chunkIndex = index,
             startPage = of_nat index * currentChunkSize + 1,
             endPage = min ((of_nat index + 1) * currentChunkSize) (of_int totalPages),
             chunkText = c\<rparr>)
       (enumerate 0 cs)"

definition chunk_json :: "chunk \<Rightarrow> json" where
  "chunk_json c =
     JObject [(''chunkIndex'', JNumber (of_nat (chunkIndex c))),
              (''startPage'', JNumber (startPage c)),
              (''endPage'', JNumber (endPage c)),
              (''text'', JString (chunkText c))]"

text \<open>Lines 656 to 668.\<close>

definition chunked_response :: "string \<Rightarrow> number \<Rightarrow> string list \<times> int \<Rightarrow> json" where
  "chunked_response filepath currentChunkSize result =
     JObject [(''action'', JString ''read_pdf_text''),
              (''filepath'', JString filepath),
              (''chunked'', JBool True),
              (''totalPages'', JNumber (of_int (snd result))),
              (''chunkSize'', JNumber currentChunkSize),
              (''chunks'', JArray (map chunk_json
                                    (chunk_entries currentChunkSize (snd result) (fst result))))]"

definition maxTokens :: real where
  "maxTokens = 15000"

text \<open>Lines 670 to 675: \<open>responseText.length / 4 <= maxTokens\<close>.\<close>

definition within_budget :: "json \<Rightarrow> bool" where
  "within_budget response = (real (length (stringify 0 response)) / 4 \<le> maxTokens)"

text \<open>Lines 696 to 712. An error thrown by \<open>readPDFText\<close> reaches the \<open>catch\<close> of the
  request handler.\<close>

definition first_page_only :: "world \<Rightarrow> string \<Rightarrow> tool_result" where
  "first_page_only w filepath =
     (case readPDFText w filepath (Some 1) (Some 1) of
        Inl msg \<Rightarrow> error_result msg
      | Inr t \<Rightarrow>
          Content (JObject [(''action'', JString ''read_pdf_text''),
                            (''filepath'', JString filepath),
                            (''startPage'', JNumber 1),
                            (''endPage'', JNumber 1),
                            (''text'', JString (take 80000 t)),
                            (''truncated'', JBool (length t > 80000)),
                            (''message'', JString
                               ''PDF too large, showing first page only (truncated)'')]))"

text \<open>
  Lines 650 to 712, from the working chunk size on. The loop \<open>while (currentChunkSize > 0)\<close>
  may run forever: the first argument is the number of times its body may run, and \<open>None\<close>
  says that it did not suffice. The result comes with the chunk sizes tried, in order.
\<close>

fun chunk_search ::
  "nat \<Rightarrow> world \<Rightarrow> string \<Rightarrow> number \<Rightarrow> (number list \<times> tool_result) option" where
  "chunk_search 0 w filepath currentChunkSize =
     (if currentChunkSize > 0 then None
      else Some ([], first_page_only w filepath))"
| "chunk_search (Suc n) w filepath currentChunkSize =
     (if currentChunkSize > 0 then
        (let again = map_option (\<lambda>(tried, r). (currentChunkSize # tried, r))
                       (chunk_search n w filepath
                          (max 1 (of_int \<lfloor>currentChunkSize / 2\<rfloor>)))
         in case readPDFTextChunked w filepath currentChunkSize of
              None \<Rightarrow> None
            | Some (Inl _) \<Rightarrow> again
            | Some (Inr result) \<Rightarrow>
                (let response = chunked_response filepath currentChunkSize result
                 in if within_budget response
                    then Some ([currentChunkSize], Content response)
                    else again))
      else Some ([], first_page_only w filepath))"

text \<open>The case \<open>read_pdf_text\<close> of the request handler; \<open>chunked\<close> defaults to \<open>false\<close> and
  \<open>chunkSize\<close> to 10.\<close>

definition read_pdf_text ::
  "nat \<Rightarrow> world \<Rightarrow> string \<Rightarrow> number option \<Rightarrow> number option \<Rightarrow> bool option
     \<Rightarrow> number option \<Rightarrow> (number list \<times> tool_result) option" where
  "read_pdf_text fuel w filepath first_page last_page chunked chunkSize =
     (if (case chunked of None \<Rightarrow> False | Some b \<Rightarrow> b) then
        chunk_search fuel w filepath (min (case chunkSize of None \<Rightarrow> 10 | Some c \<Rightarrow> c) 2)
      else
        Some ([],
          case readPDFText w filepath first_page last_page of
            Inl msg \<Rightarrow> error_result msg
          | Inr t \<Rightarrow>
              Content (JObject ([(''action'', JString ''read_pdf_text''),
                                 (''filepath'', JString filepath)]
                                @ (case first_page of None \<Rightarrow> []
                                   | Some s \<Rightarrow> [(''startPage'', JNumber s)])
                                @ (case last_page of None \<Rightarrow> []
                                   | Some e \<Rightarrow> [(''endPage'', JNumber e)])
                                @ [(''text'', JString t)]))))"

text \<open>The cases \<open>list_downloaded_pdfs\<close> and \<open>cleanup_downloads\<close>.\<close>

definition list_downloaded_pdfs :: "world \<Rightarrow> directory \<Rightarrow> tool_result" where
  "list_downloaded_pdfs w d =
     (let downloadedPDFs = listDownloadedPDFs w d
      in Content (JObject [(''action'', JString ''list_downloaded_pdfs''),
                           (''downloadsDirectory'', JString (downloadsDir w)),
                           (''files'', JArray (map JString downloadedPDFs)),
                           (''count'', JNumber (of_nat (length downloadedPDFs)))]))"

text \<open>The result, the directory afterwards and the line on the console.\<close>

definition cleanup_downloads :: "directory \<Rightarrow> tool_result \<times> directory \<times> string" where
  "cleanup_downloads d =
     (Content (JObject [(''action'', JString ''cleanup_downloads''),
                        (''message'', JString ''All downloaded PDFs have been cleaned up'')]),
      cleanupDownloads d)"


section \<open>Worlds and directories of the examples\<close>

text \<open>A world where every request is refused with status 403, no file exists and no command
  runs; one URL has a query parameter.\<close>

definition offline_world :: world where
  "offline_world =
     \<lparr>http_get = (\<lambda>_. Inl ''Request failed with status code 403''),
      arxiv_query = (\<lambda>_. None),
      url_searchParams =
        (\<lambda>url. if url = ''https://ieee.org/search?q=LLM'' then Some [(''q'', ''LLM'')]
               else Some []),
      decodeURIComponent = Some,
      date_now = 1700000000000,
      downloadsDir = ''/tmp/science_mcp_downloads'',
      existsSync = (\<lambda>_. False),
      exec = (\<lambda>_. Inl ''Command failed'')\<rparr>"

text \<open>A world told by the table of the commands that succeed, with their output.\<close>

definition run_table :: "(string \<times> string) list \<Rightarrow> string \<Rightarrow> string + string" where
  "run_table table command =
     (case map_of table command of
        None \<Rightarrow> Inl ''Command failed''
      | Some out \<Rightarrow> Inr out)"

text \<open>A document of three pages at \<open>/tmp/a.pdf\<close>, with \<open>pdfinfo\<close> and \<open>pdftotext\<close> installed.\<close>

definition paper_world :: world where
  "paper_world =
     offline_world
       \<lparr>existsSync := (\<lambda>p. p = ''/tmp/a.pdf''),
        exec := run_table
          [(pdfinfo_command ''/tmp/a.pdf'', ''Pages:          3\<newline>''),
           (pdftotext_command ''/tmp/a.pdf'' None None, ''one two three''),
           (pdftotext_command ''/tmp/a.pdf'' (Some 2) None, ''two three''),
           (pdftotext_command ''/tmp/a.pdf'' (Some 1) (Some 2), ''one two''),
           (pdftotext_command ''/tmp/a.pdf'' (Some 3) (Some 3), ''three''),
           (pdftotext_command ''/tmp/a.pdf'' (Some 1) (Some 1), ''one''),
           (pdftotext_command ''/tmp/a.pdf'' (Some 2) (Some 2), ''two'')]\<rparr>"

text \<open>The same file where no command runs.\<close>

definition no_poppler_world :: world where
  "no_poppler_world = offline_world\<lparr>existsSync := (\<lambda>p. p = ''/tmp/a.pdf'')\<rparr>"

text \<open>A document of one page whose text has 80001 characters.\<close>

definition big_page :: string where
  "big_page = replicate 80001 (CHR ''a'')"

definition big_page_world :: world where
  "big_page_world =
     offline_world
       \<lparr>existsSync := (\<lambda>p. p = ''/tmp/big.pdf''),
        exec := run_table
          [(pdfinfo_command ''/tmp/big.pdf'', ''Pages:          1\<newline>''),
           (pdftotext_command ''/tmp/big.pdf'' (Some 1) (Some 1), big_page)]\<rparr>"

text \<open>The document of three pages where \<open>pdfinfo\<close> runs and \<open>pdftotext\<close> fails.\<close>

definition pdfinfo_only_world :: world where
  "pdfinfo_only_world =
     offline_world
       \<lparr>existsSync := (\<lambda>p. p = ''/tmp/a.pdf''),
        exec := run_table [(pdfinfo_command ''/tmp/a.pdf'', ''Pages:          3\<newline>'')]\<rparr>"

text \<open>A downloads directory with three files.\<close>

definition three_files :: directory where
  "three_files = [(''a.pdf'', File ''%PDF-1.4''), (''b.pdf'', File ''%PDF-1.5''), (''notes.txt'', File ''x'')]"

text \<open>The feed of arXiv for a paper, and a world where the paper is refused by its publisher
  and served by arXiv.\<close>

definition arxiv_feed :: "entry list" where
  "arxiv_feed =
     [[(''text/html'', ''http://arxiv.org/abs/1706.03762v7''),
       (''application/pdf'', ''http://arxiv.org/pdf/1706.03762v7'')]]"

definition fallback_world :: world where
  "fallback_world =
     offline_world
       \<lparr>http_get := (\<lambda>url. if url = ''http://arxiv.org/pdf/1706.03762v7'' then Inr ''%PDF-1.5''
                            else Inl ''Request failed with status code 403''),
        arxiv_query := (\<lambda>q. if q = searchQuery ''Attention Is All You Need''
                            then Some arxiv_feed else Some [])\<rparr>"

text \<open>A feed whose PDF link is on a domain of the paywalled list, and a world where the
  resolver answers with it before it answers with the link of arXiv.\<close>

definition mirror_feed :: "entry list" where
  "mirror_feed = [[(''application/pdf'', ''https://dl.acm.org/doi/pdf/attention_is_all_you_need_2017'')]]"

definition chain_world :: world where
  "chain_world =
     offline_world
       \<lparr>http_get := (\<lambda>url. if url = ''http://arxiv.org/pdf/1706.03762v7'' then Inr ''%PDF-1.5''
                            else Inl ''Request failed with status code 403''),
        arxiv_query := (\<lambda>q. if q = searchQuery ''attention is all you need'' then Some mirror_feed
                            else if q = searchQuery ''attention is all you need 2017''
                            then Some arxiv_feed else Some [])\<rparr>"

definition empty_state :: state where
  "empty_state = \<lparr>dir = [], trace = []\<rparr>"


section \<open>Properties\<close>

subsection \<open>Strings and file names\<close>

lemma split_on_not_Nil: "split_on sep s \<noteq> []"
  by (induction s) (auto split: list.splits)


lemma endsWith_sanitize:
  assumes "endsWith s ''.pdf''"
  shows "endsWith (sanitize s) ''.pdf''"
proof -
  from assms have "prefix (map sanitize_char (rev ''.pdf'')) (map sanitize_char (rev s))"
    unfolding endsWith_def by (rule map_mono_prefix)
  then show ?thesis
    by (simp add: endsWith_def sanitize_def rev_map sanitize_char_def is_alpha_def is_digit_def)
qed

text \<open>Whatever branch made it, the stored name ends in \<open>.pdf\<close> and has no character
  outside \<open>[A-Za-z0-9._-]\<close>.\<close>

lemma stored_filename_shape:
  "endsWith (stored_filename now pdfUrl filename) ''.pdf''
   \<and> (\<forall>c \<in> set (stored_filename now pdfUrl filename).
         is_alpha c \<or> is_digit c \<or> c = CHR ''.'' \<or> c = CHR ''_'' \<or> c = CHR ''-'')"
proof
  show "endsWith (stored_filename now pdfUrl filename) ''.pdf''"
    unfolding stored_filename_def Let_def
    by (rule endsWith_sanitize) (simp add: endsWith_def)
  show "\<forall>c \<in> set (stored_filename now pdfUrl filename).
          is_alpha c \<or> is_digit c \<or> c = CHR ''.'' \<or> c = CHR ''_'' \<or> c = CHR ''-''"
    by (auto simp: stored_filename_def sanitize_def sanitize_char_def Let_def)
qed

text \<open>The test for \<open>scholar.google\<close> is on the last path segment too, and \<open>.pdf\<close> is
  removed where it first occurs, not only at the end.\<close>

lemma stored_filename_other_urls:
  "stored_filename now ''https://scholar.google.com/scholar?q=attention'' None
     = ''scholar_q_attention.pdf''
   \<and> stored_filename now ''https://example.org/a.pdf.html'' None = ''a.html.pdf''"
  by (simp add: stored_filename_def filename_from_url_def last_part_def endsWith_def
      sanitize_def sanitize_char_def is_alpha_def is_digit_def Let_def)

text \<open>
  Claim C7 (the name derived for a download with no file name from the caller: \<open>arxiv_<id>\<close>
  when the host is \<open>arxiv.org\<close>, ...), at the URL of a paper of arXiv. The source tests the
  last path segment, not the host, for \<open>arxiv.org\<close>; the segment of
  \<open>https://arxiv.org/pdf/1706.03762\<close> is \<open>1706.03762\<close>, so the branch that builds
  \<open>arxiv_<id>\<close> is not taken, although its regular expression finds the id in the URL,
  and the file is stored as \<open>1706.03762.pdf\<close>.
\<close>

theorem stored_filename_arxiv_url:
  "stored_filename now ''https://arxiv.org/pdf/1706.03762'' None = ''1706.03762.pdf''
   \<and> match_arxiv_id ''https://arxiv.org/pdf/1706.03762'' = Some ''1706.03762''
   \<and> \<not> str_includes (last_part ''https://arxiv.org/pdf/1706.03762'') ''arxiv.org''"
  by (simp add: stored_filename_def filename_from_url_def last_part_def endsWith_def
      sanitize_def sanitize_char_def is_alpha_def is_digit_def Let_def)


subsection \<open>Acquisition\<close>

text \<open>
  Claim C3: when the URL matches no domain of the paywalled list and the fetch fails,
  \<open>downloadPDF\<close> throws \<open>Failed to download PDF:\<close> followed by the message of the cause,
  and the only thing it has done outside is that one fetch: no title inference and no call
  of the resolver.
\<close>

theorem downloadPDF_not_paywalled:
  assumes "\<not> isPaywalledSource pdfUrl" and "http_get w pdfUrl = Inl msg"
  shows "downloadPDF (Suc n) w pdfUrl filename st =
           Some (Inl (''Failed to download PDF: '' @ msg), st\<lparr>trace := trace st @ [Fetch pdfUrl]\<rparr>)"
  using assms by (simp add: fetch_and_store_def)

text \<open>C3 at a URL outside the list, in the world where every fetch is refused.\<close>

theorem downloadPDF_not_paywalled_witness:
  "downloadPDF (Suc 0) offline_world ''https://example.org/files/paper.pdf'' None empty_state =
     Some (Inl ''Failed to download PDF: Request failed with status code 403'',
           \<lparr>dir = [], trace = [Fetch ''https://example.org/files/paper.pdf'']\<rparr>)"
proof -
  have np: "\<not> isPaywalledSource ''https://example.org/files/paper.pdf''"
    by (simp add: isPaywalledSource_def paywalledDomains_def)
  have failed: "http_get offline_world ''https://example.org/files/paper.pdf'' =
                  Inl ''Request failed with status code 403''"
    by (simp add: offline_world_def)
  from downloadPDF_not_paywalled [OF np failed, of 0 None empty_state]
  show ?thesis by (simp add: empty_state_def)
qed

text \<open>A call on a URL outside the list fetches once and does not call the resolver.\<close>

lemma downloadPDF_direct:
  assumes "\<not> isPaywalledSource u"
  shows "\<exists>r st'. downloadPDF (Suc n) w u fn st = Some (r, st')
           \<and> (\<exists>evs. trace st' = trace st @ evs \<and> fetches evs = 1 \<and> resolver_calls evs = 0)"
  using assms
  by (auto simp: fetch_and_store_def fetches_def resolver_calls_def Let_def split: sum.splits)

text \<open>
  Claim C4, as the source has it: two nested calls suffice, with at most two fetches and at
  most one call of the resolver, when the substitute URL that this call gets from the
  resolver (for the title it infers after its own failure on a URL of the paywalled list)
  is outside the paywalled list, as the PDF links of arXiv are. Nothing is asked of what
  the resolver would return for another title. Nothing in \<open>downloadPDF\<close> counts the depth.
\<close>

theorem downloadPDF_one_retry:
  assumes free:
    "\<And>msg filename' t u.
       isPaywalledSource pdfUrl \<Longrightarrow>
       fetch_and_store w pdfUrl filename (st\<lparr>trace := trace st @ [Fetch pdfUrl]\<rparr>)
         = Inl (msg, filename') \<Longrightarrow>
       extractTitleFromUrl w pdfUrl filename' = Some t \<Longrightarrow>
       t \<noteq> [] \<Longrightarrow>
       fst (findPaperOnArxiv w t) = Some u \<Longrightarrow>
       \<not> isPaywalledSource u"
  shows "\<exists>r st'. downloadPDF (Suc (Suc n)) w pdfUrl filename st = Some (r, st')
           \<and> (\<exists>evs. trace st' = trace st @ evs \<and> fetches evs \<le> 2 \<and> resolver_calls evs \<le> 1)"
proof -
  let ?st1 = "st\<lparr>trace := trace st @ [Fetch pdfUrl]\<rparr>"
  show ?thesis
  proof (cases "fetch_and_store w pdfUrl filename ?st1")
    case (Inr ok)
    then show ?thesis
      by (cases ok) (auto simp: fetch_and_store_def fetches_def resolver_calls_def Let_def split: sum.splits)
  next
    case (Inl bad)
    obtain msg fn' where bad: "bad = (msg, fn')" by (cases bad)
    show ?thesis
    proof (cases "isPaywalledSource pdfUrl")
      case False
      with Inl bad show ?thesis
        by (simp add: fetches_def resolver_calls_def)
    next
      case True
      show ?thesis
      proof (cases "extractTitleFromUrl w pdfUrl fn'")
        case None
        with Inl bad True show ?thesis
          by (simp add: fetches_def resolver_calls_def)
      next
        case (Some t)
        show ?thesis
        proof (cases "t = []")
          case True
          with Inl bad \<open>isPaywalledSource pdfUrl\<close> Some show ?thesis
            by (simp add: fetches_def resolver_calls_def)
        next
          case False
          let ?st3 = "?st1\<lparr>trace := trace ?st1 @ [TitleInference]\<rparr>
                        \<lparr>trace := trace (?st1\<lparr>trace := trace ?st1 @ [TitleInference]\<rparr>)
                            @ Resolver t # map ArxivRequest (snd (findPaperOnArxiv w t))\<rparr>"
          show ?thesis
          proof (cases "fst (findPaperOnArxiv w t)")
            case None
            with Inl bad \<open>isPaywalledSource pdfUrl\<close> Some False show ?thesis
              by (simp add: fetches_def resolver_calls_def Let_def comp_def)
          next
            case (Some u)
            from Inl bad have "fetch_and_store w pdfUrl filename ?st1 = Inl (msg, fn')"
              by simp
            from free [OF \<open>isPaywalledSource pdfUrl\<close> this
                \<open>extractTitleFromUrl w pdfUrl fn' = Some t\<close> False Some]
            have "\<not> isPaywalledSource u" .
            from downloadPDF_direct [OF this, of n w fn' ?st3]
            obtain r st' evs where
              rec: "downloadPDF (Suc n) w u fn' ?st3 = Some (r, st')"
              and tr: "trace st' = trace ?st3 @ evs" "fetches evs = 1" "resolver_calls evs = 0"
              by blast
            with Inl bad \<open>isPaywalledSource pdfUrl\<close> \<open>extractTitleFromUrl w pdfUrl fn' = Some t\<close> False Some
            show ?thesis
              by (cases r) (simp_all add: fetches_def resolver_calls_def Let_def comp_def)
          qed
        qed
      qed
    qed
  qed
qed

lemma fallback_world_free:
  assumes "fst (findPaperOnArxiv fallback_world t) = Some u"
  shows "\<not> isPaywalledSource u"
proof -
  have "u = ''http://arxiv.org/pdf/1706.03762v7''"
    using assms
    by (simp add: findPaperOnArxiv_def fallback_world_def offline_world_def arxiv_feed_def
        first_pdf_link_def split: if_splits)
  then show ?thesis
    by (simp add: isPaywalledSource_def paywalledDomains_def)
qed

text \<open>In the world where the resolver answers once with a link of the paywalled list, the
  call on that link gets the link of arXiv as its own substitute.\<close>

lemma chain_world_second_call_free:
  assumes "fetch_and_store chain_world ''https://dl.acm.org/doi/pdf/attention_is_all_you_need_2017''
             None st1 = Inl (msg, filename')"
    and "extractTitleFromUrl chain_world
           ''https://dl.acm.org/doi/pdf/attention_is_all_you_need_2017'' filename' = Some t"
    and "fst (findPaperOnArxiv chain_world t) = Some u"
  shows "\<not> isPaywalledSource u"
proof -
  from assms(1) have "filename' = None"
    by (simp add: fetch_and_store_def chain_world_def offline_world_def)
  with assms(2) have "t = ''attention is all you need 2017''"
    by (simp add: extractTitleFromUrl_def title_from_filename_def title_from_params_def
        title_from_path_def last_part_def or_else_def unders_to_spaces_def chain_world_def
        offline_world_def Let_def)
  with assms(3) have "u = ''http://arxiv.org/pdf/1706.03762v7''"
    by (simp add: findPaperOnArxiv_def chain_world_def offline_world_def searchQuery_def
        arxiv_feed_def first_pdf_link_def)
  then show ?thesis
    by (simp add: isPaywalledSource_def paywalledDomains_def)
qed

text \<open>C4 as amended, in the world where the publisher refuses and arXiv serves the paper,
  and at the second link of the world above, where the resolver has an answer of the
  paywalled list for another title.\<close>

theorem downloadPDF_one_retry_witness:
  "(\<exists>r st'. downloadPDF (Suc (Suc 0)) fallback_world ''https://sciencedirect.com/paper123.pdf''
              (Some ''Attention_Is_All_You_Need.pdf'') empty_state = Some (r, st')
           \<and> (\<exists>evs. trace st' = trace empty_state @ evs
                    \<and> fetches evs \<le> 2 \<and> resolver_calls evs \<le> 1))
   \<and> (\<exists>r st'. downloadPDF (Suc (Suc 0)) chain_world
              ''https://dl.acm.org/doi/pdf/attention_is_all_you_need_2017'' None empty_state
              = Some (r, st')
           \<and> (\<exists>evs. trace st' = trace empty_state @ evs
                    \<and> fetches evs \<le> 2 \<and> resolver_calls evs \<le> 1))"
proof
  show "\<exists>r st'. downloadPDF (Suc (Suc 0)) fallback_world ''https://sciencedirect.com/paper123.pdf''
              (Some ''Attention_Is_All_You_Need.pdf'') empty_state = Some (r, st')
           \<and> (\<exists>evs. trace st' = trace empty_state @ evs
                    \<and> fetches evs \<le> 2 \<and> resolver_calls evs \<le> 1)"
    by (rule downloadPDF_one_retry) (rule fallback_world_free)
  show "\<exists>r st'. downloadPDF (Suc (Suc 0)) chain_world
              ''https://dl.acm.org/doi/pdf/attention_is_all_you_need_2017'' None empty_state
              = Some (r, st')
           \<and> (\<exists>evs. trace st' = trace empty_state @ evs
                    \<and> fetches evs \<le> 2 \<and> resolver_calls evs \<le> 1)"
    by (rule downloadPDF_one_retry) (rule chain_world_second_call_free)
qed

text \<open>
  Claim C4 as stated fails: when the resolver answers with a URL that is itself on the
  paywalled list and that fetch fails too, the nested call infers a title and calls the
  resolver again. Here one call of \<open>downloadPDF\<close> fetches three times and calls the
  resolver twice.
\<close>

theorem downloadPDF_deeper_counterexample:
  "downloadPDF (Suc (Suc (Suc 0))) chain_world
     ''https://ieeexplore.ieee.org/document/attention_is_all_you_need'' None empty_state =
   Some (Inr ''/tmp/science_mcp_downloads/1706.03762v7.pdf'',
         \<lparr>dir = [(''1706.03762v7.pdf'', File ''%PDF-1.5'')],
          trace =
            [Fetch ''https://ieeexplore.ieee.org/document/attention_is_all_you_need'',
             TitleInference,
             Resolver ''attention is all you need'',
             ArxivRequest (searchQuery ''attention is all you need''),
             Fetch ''https://dl.acm.org/doi/pdf/attention_is_all_you_need_2017'',
             TitleInference,
             Resolver ''attention is all you need 2017'',
             ArxivRequest (searchQuery ''attention is all you need 2017''),
             Fetch ''http://arxiv.org/pdf/1706.03762v7'',
             WriteFile ''1706.03762v7.pdf'']\<rparr>)
   \<and> map_option (\<lambda>(r, st). (fetches (trace st), resolver_calls (trace st)))
         (downloadPDF (Suc (Suc (Suc 0))) chain_world
            ''https://ieeexplore.ieee.org/document/attention_is_all_you_need'' None empty_state)
       = Some (3, 2)"
  by (simp add: chain_world_def offline_world_def empty_state_def fetch_and_store_def
      isPaywalledSource_def paywalledDomains_def extractTitleFromUrl_def title_from_filename_def
      title_from_params_def title_from_path_def last_part_def or_else_def
      unders_to_spaces_def findPaperOnArxiv_def searchQuery_def
      arxiv_feed_def mirror_feed_def first_pdf_link_def stored_filename_def filename_from_url_def
      endsWith_def writeFileSync_def sanitize_def sanitize_char_def is_alpha_def is_digit_def
      fetches_def resolver_calls_def Let_def)







subsection \<open>Text extraction\<close>

text \<open>A whole number is rendered by its decimal digits.\<close>

lemma show_number_of_int: "show_number (of_int i) = show_int i"
proof -
  have a: "\<bar>(of_int i :: rat)\<bar> = of_int \<bar>i\<bar>"
    by simp
  have d: "fraction_digits 17 (frac (of_int \<bar>i\<bar> :: rat)) = []"
    by (simp add: fraction_digits.simps)
  have n: "nat \<bar>i\<bar> = (if i < 0 then nat (- i) else nat i)"
    by simp
  show ?thesis
    unfolding show_number_def a d Let_def floor_of_int n
    by (simp add: show_int_def)
qed

lemma show_number_numeral:
  "show_number (numeral k) = show_int (numeral k)"
  "show_number 1 = show_int 1"
  "show_number 0 = show_int 0"
  using show_number_of_int [of "numeral k"] show_number_of_int [of 1] show_number_of_int [of 0]
  by simp_all

lemma readPDFText_exists:
  "existsSync w fp \<Longrightarrow> \<exists>t. readPDFText w fp s e = Inr t"
  by (cases "exec w (pdftotext_command fp s e)") (simp_all add: readPDFText_def)

text \<open>
  Claim C8: \<open>readPDFText\<close> throws \<open>PDF file not found\<close> when the file does not exist; when it
  exists it never throws, and returns the fixed explanatory text when the command fails;
  with no page bound the command is \<open>pdftotext "<file>" -\<close>, which names no page and so
  converts the whole document, and with a start page only it is
  \<open>pdftotext -f <start> "<file>" -\<close>, which names no last page and so runs to the end of the
  document; in both cases the text returned is the output of the command. The start page
  is any number; a whole one is written with its decimal digits.
\<close>

theorem readPDFText_contract:
  "(\<not> existsSync w filepath \<longrightarrow>
      readPDFText w filepath s e = Inl (''Failed to read PDF: PDF file not found: '' @ filepath))
   \<and> (existsSync w filepath \<longrightarrow> (\<exists>t. readPDFText w filepath s e = Inr t))
   \<and> (existsSync w filepath \<and> (\<exists>msg. exec w (pdftotext_command filepath s e) = Inl msg) \<longrightarrow>
      readPDFText w filepath s e = Inr extraction_failed)
   \<and> (\<forall>out. existsSync w filepath
            \<and> exec w (''pdftotext '' @ quoted filepath @ '' -'') = Inr out \<longrightarrow>
      readPDFText w filepath None None = Inr out)
   \<and> (\<forall>out. existsSync w filepath
            \<and> exec w (''pdftotext -f '' @ show_number p @ '' '' @ quoted filepath @ '' -'') = Inr out \<longrightarrow>
      readPDFText w filepath (Some p) None = Inr out)
   \<and> (\<forall>out. existsSync w filepath
            \<and> exec w (''pdftotext -f '' @ show_int k @ '' '' @ quoted filepath @ '' -'') = Inr out \<longrightarrow>
      readPDFText w filepath (Some (of_int k)) None = Inr out)"
proof (intro conjI allI impI)
  show "existsSync w filepath \<Longrightarrow> \<exists>t. readPDFText w filepath s e = Inr t"
    by (rule readPDFText_exists)
qed (auto simp: readPDFText_def pdftotext_command_def show_number_of_int)

text \<open>C8 on a missing file, on a file where the command fails, and on the document of three
  pages with no bound and with a start page only.\<close>

theorem readPDFText_contract_witness:
  "readPDFText offline_world ''/tmp/a.pdf'' None None
     = Inl ''Failed to read PDF: PDF file not found: /tmp/a.pdf''
   \<and> readPDFText no_poppler_world ''/tmp/a.pdf'' (Some 2) (Some 3) = Inr extraction_failed
   \<and> readPDFText paper_world ''/tmp/a.pdf'' None None = Inr ''one two three''
   \<and> readPDFText paper_world ''/tmp/a.pdf'' (Some 2) None = Inr ''two three''"
proof -
  have a: "\<not> existsSync offline_world ''/tmp/a.pdf''"
    by (simp add: offline_world_def)
  have b: "existsSync no_poppler_world ''/tmp/a.pdf''
           \<and> (\<exists>msg. exec no_poppler_world (pdftotext_command ''/tmp/a.pdf'' (Some 2) (Some 3)) = Inl msg)"
    by (simp add: no_poppler_world_def offline_world_def)
  have c: "existsSync paper_world ''/tmp/a.pdf''
           \<and> exec paper_world (''pdftotext '' @ quoted ''/tmp/a.pdf'' @ '' -'') = Inr ''one two three''"
    by (simp add: paper_world_def run_table_def pdfinfo_command_def pdftotext_command_def
        quoted_def)
  have d: "existsSync paper_world ''/tmp/a.pdf''
           \<and> exec paper_world (''pdftotext -f '' @ show_number 2 @ '' '' @ quoted ''/tmp/a.pdf'' @ '' -'')
               = Inr ''two three''"
    by (simp add: paper_world_def run_table_def pdfinfo_command_def pdftotext_command_def
        quoted_def show_number_numeral show_int_def show_nat.simps digit_char_def char_of_eq_iff)
  from readPDFText_contract [of offline_world "''/tmp/a.pdf''" None None] a
  have 1: "readPDFText offline_world ''/tmp/a.pdf'' None None
             = Inl ''Failed to read PDF: PDF file not found: /tmp/a.pdf''"
    by simp
  from readPDFText_contract [of no_poppler_world "''/tmp/a.pdf''" "Some 2" "Some 3"] b
  have 2: "readPDFText no_poppler_world ''/tmp/a.pdf'' (Some 2) (Some 3) = Inr extraction_failed"
    by blast
  from readPDFText_contract [of paper_world "''/tmp/a.pdf''"] c
  have 3: "readPDFText paper_world ''/tmp/a.pdf'' None None = Inr ''one two three''"
    by blast
  from readPDFText_contract [of paper_world "''/tmp/a.pdf''" _ _ 2] d
  have 4: "readPDFText paper_world ''/tmp/a.pdf'' (Some 2) None = Inr ''two three''"
    by blast
  from 1 2 3 4 show ?thesis by simp
qed


subsection \<open>The chunk plan\<close>

lemma int_div_sub_self: "(c::int) \<noteq> 0 \<Longrightarrow> (a - c) div c = a div c - 1"
  using div_add_self2 [of c "a - c"] by simp

text \<open>With a whole chunk size of at least 1 and the file present, the loop over the start
  pages ends, and the number of chunks is known.\<close>

lemma read_chunks_exists:
  assumes ex: "existsSync w fp" and c: "1 \<le> c"
  shows "\<exists>cs. read_chunks w fp (of_int c) tp (of_int sp) acc = Some (Inr (acc @ cs))
           \<and> int (length cs) = (if sp \<le> tp then (tp - sp) div c + 1 else 0)"
proof (induction "nat (tp - sp + 1)" arbitrary: sp acc rule: less_induct)
  case less
  show ?case
  proof (cases "sp \<le> tp")
    case False
    then show ?thesis by (subst read_chunks.simps) simp
  next
    case True
    obtain t where t: "readPDFText w fp (Some (of_int sp))
                         (Some (min (of_int sp + of_int c - 1) (of_int tp))) = Inr t"
      using readPDFText_exists [OF ex] by blast
    have "nat (tp - (sp + c) + 1) < nat (tp - sp + 1)"
      using True c by simp
    from less [OF this, of "acc @ [t]"] obtain cs where
      rec: "read_chunks w fp (of_int c) tp (of_int (sp + c)) (acc @ [t])
              = Some (Inr ((acc @ [t]) @ cs))"
      and len: "int (length cs) = (if sp + c \<le> tp then (tp - (sp + c)) div c + 1 else 0)"
      by blast
    have run: "read_chunks w fp (of_int c) tp (of_int sp) acc = Some (Inr (acc @ t # cs))"
      using True t rec by (subst read_chunks.simps) (simp add: Let_def)
    have "int (length (t # cs)) = (tp - sp) div c + 1"
    proof (cases "sp + c \<le> tp")
      case True
      have e: "tp - sp - c = tp - (sp + c)" by simp
      have "c \<noteq> 0" using c by simp
      from int_div_sub_self [OF this, of "tp - sp"]
      have "(tp - (sp + c)) div c = (tp - sp) div c - 1"
        unfolding e .
      with len True show ?thesis by simp
    next
      case False
      with \<open>sp \<le> tp\<close> have "(tp - sp) div c = 0"
        by (simp add: div_pos_pos_trivial)
      with len False show ?thesis by simp
    qed
    with run True show ?thesis by auto
  qed
qed

lemma readPDFTextChunked_Inr:
  assumes "readPDFTextChunked w fp c = Some (Inr (chunks, tp))"
  shows "existsSync w fp \<and> read_chunks w fp c tp 1 [] = Some (Inr chunks)"
  using assms
  by (auto simp: readPDFTextChunked_def Let_def split: if_splits sum.splits option.splits)

lemma chunk_count:
  assumes "readPDFTextChunked w fp (of_int c) = Some (Inr (chunks, tp))"
    and "1 \<le> c" and "1 \<le> tp"
  shows "int (length chunks) = (tp - 1) div c + 1"
proof -
  from readPDFTextChunked_Inr [OF assms(1)]
  have ex: "existsSync w fp"
    and run: "read_chunks w fp (of_int c) tp 1 [] = Some (Inr chunks)"
    by simp_all
  from read_chunks_exists [OF ex assms(2), of tp 1 "[]"] run assms(3)
  show ?thesis by auto
qed

lemma length_chunk_entries: "length (chunk_entries c tp chunks) = length chunks"
  by (simp add: chunk_entries_def)

lemma nth_chunk_entries:
  "i < length chunks \<Longrightarrow>
   chunk_entries c tp chunks ! i =
     \<lparr>chunkIndex = i, startPage = of_nat i * c + 1,
      endPage = min ((of_nat i + 1) * c) (of_int tp), chunkText = chunks ! i\<rparr>"
  by (simp add: chunk_entries_def nth_enumerate_eq)

lemma chunkText_entries: "map chunkText (chunk_entries c tp chunks) = chunks"
  by (rule nth_equalityI) (simp_all add: length_chunk_entries nth_chunk_entries)

lemma div_bounds:
  fixes a c :: int
  assumes "0 < c"
  shows "a div c * c \<le> a" and "a < (a div c + 1) * c"
proof -
  have m: "0 \<le> a mod c" "a mod c < c"
    using assms by simp_all
  have e: "a = a div c * c + a mod c"
    by simp
  show "a div c * c \<le> a"
    using m(1) e by linarith
  have "(a div c + 1) * c = a div c * c + c"
    by (simp add: algebra_simps)
  then show "a < (a div c + 1) * c"
    using m(2) e by linarith
qed

text \<open>
  Claim C5, as the source has it: when \<open>readPDFTextChunked\<close> returns for a whole chunk size
  of at least 1 and a document of at least one page, the entries the handler makes of its
  chunks start at page 1, end at the last page, each begin one page after the one before
  ends, have whole bounds, none is empty or longer than the chunk size, no two overlap, and
  together they cover exactly the pages from 1 to the last. The working chunk size is whole
  whenever the requested one is, and after the first halving.
\<close>

theorem chunk_plan_partitions:
  assumes plan: "readPDFTextChunked w filepath (of_int c) = Some (Inr (chunks, tp))"
    and c: "1 \<le> c" and tp: "1 \<le> tp"
  shows "let es = chunk_entries (of_int c) tp chunks in
           es \<noteq> []
           \<and> startPage (hd es) = 1
           \<and> endPage (last es) = of_int tp
           \<and> (\<forall>i. Suc i < length es \<longrightarrow> endPage (es ! i) + 1 = startPage (es ! Suc i))
           \<and> (\<forall>i < length es. startPage (es ! i) \<in> \<int> \<and> endPage (es ! i) \<in> \<int>
                                  \<and> startPage (es ! i) \<le> endPage (es ! i)
                                  \<and> endPage (es ! i) - startPage (es ! i) + 1 \<le> of_int c)
           \<and> (\<forall>i j. i < j \<and> j < length es \<longrightarrow> endPage (es ! i) < startPage (es ! j))
           \<and> (\<Union>e \<in> set es. {p::int. startPage e \<le> of_int p \<and> of_int p \<le> endPage e})
               = {1 .. tp}"
proof -
  define es where "es = chunk_entries (of_int c) tp chunks"
  define n where "n = length chunks"
  define S where "S i = int i * c + 1" for i
  define E where "E i = min ((int i + 1) * c) tp" for i
  have len: "length es = n"
    by (simp add: es_def n_def length_chunk_entries)
  have cnt: "int n = (tp - 1) div c + 1"
    unfolding n_def by (rule chunk_count [OF plan c tp])
  have c0: "0 < c" using c by simp
  have "0 \<le> (tp - 1) div c"
    using tp c0 by (simp add: pos_imp_zdiv_nonneg_iff)
  with cnt have n1: "1 \<le> n" by linarith
  have lo: "(int n - 1) * c \<le> tp - 1"
    using div_bounds(1) [OF c0, of "tp - 1"] cnt by simp
  have hi: "tp \<le> int n * c"
    using div_bounds(2) [OF c0, of "tp - 1"] cnt by simp
  have st: "startPage (es ! i) = of_int (S i)" if "i < n" for i
    using that by (simp add: es_def n_def nth_chunk_entries S_def)
  have en: "endPage (es ! i) = of_int (E i)" if "i < n" for i
    using that by (simp add: es_def n_def nth_chunk_entries E_def of_int_min)
  have below: "(int i + 1) * c \<le> tp - 1" if "Suc i < n" for i
  proof -
    have "int i + 1 \<le> int n - 1" using that by simp
    then have "(int i + 1) * c \<le> (int n - 1) * c"
      using c0 by (intro mult_right_mono) simp_all
    with lo show ?thesis by simp
  qed
  have start_le: "int i * c + 1 \<le> tp" if "i < n" for i
  proof -
    have "int i \<le> int n - 1" using that by simp
    then have "int i * c \<le> (int n - 1) * c"
      using c0 by (intro mult_right_mono) simp_all
    with lo show ?thesis by simp
  qed
  have step: "(int i + 1) * c = int i * c + c" for i
    by (simp add: algebra_simps)
  have S0: "S 0 = 1"
    by (simp add: S_def)
  have Elast: "E (n - 1) = tp"
  proof -
    have "int (n - 1) + 1 = int n"
      using n1 by simp
    then show ?thesis
      using hi by (simp add: E_def)
  qed
  have next_start: "E i + 1 = S (Suc i)" if "Suc i < n" for i
    using below [OF that] by (simp add: E_def S_def)
  have inside: "S i \<le> E i \<and> E i - S i + 1 \<le> c \<and> 1 \<le> S i \<and> E i \<le> tp" if "i < n" for i
  proof -
    have "0 \<le> int i * c" using c0 by simp
    then show ?thesis
      using start_le [OF that] step [of i] c by (simp add: E_def S_def)
  qed
  have apart: "E i < S j" if "i < j" for i j
  proof -
    have "int i + 1 \<le> int j" using that by simp
    then have "(int i + 1) * c \<le> int j * c"
      using c0 by (intro mult_right_mono) simp_all
    then show ?thesis
      by (simp add: E_def S_def)
  qed
  have p1: "es \<noteq> []"
    using len n1 by auto
  have p2: "startPage (hd es) = 1"
    using p1 st [of 0] n1 S0 by (simp add: hd_conv_nth)
  have p3: "endPage (last es) = of_int tp"
  proof -
    have "last es = es ! (n - 1)"
      using p1 len by (simp add: last_conv_nth)
    then show ?thesis
      using en [of "n - 1"] n1 Elast by simp
  qed
  have p4: "endPage (es ! i) + 1 = startPage (es ! Suc i)" if "Suc i < length es" for i
  proof -
    from that len have s: "Suc i < n" by simp
    then have i: "i < n" by simp
    have "(of_int (E i + 1) :: rat) = of_int (S (Suc i))"
      by (simp only: next_start [OF s])
    then show ?thesis
      by (simp add: st [OF s] en [OF i])
  qed
  have p5: "startPage (es ! i) \<in> \<int> \<and> endPage (es ! i) \<in> \<int>
            \<and> startPage (es ! i) \<le> endPage (es ! i)
            \<and> endPage (es ! i) - startPage (es ! i) + 1 \<le> of_int c" if "i < length es" for i
  proof -
    from that len have i: "i < n" by simp
    from inside [OF i] have "(of_int (E i - S i + 1) :: rat) \<le> of_int c"
      by (simp only: of_int_le_iff)
    then have "(of_int (E i) :: rat) - of_int (S i) + 1 \<le> of_int c"
      by simp
    moreover from inside [OF i] have "(of_int (S i) :: rat) \<le> of_int (E i)"
      by (simp only: of_int_le_iff)
    ultimately show ?thesis
      by (simp add: st [OF i] en [OF i])
  qed
  have p6: "endPage (es ! i) < startPage (es ! j)" if "i < j \<and> j < length es" for i j
  proof -
    from that len have i: "i < n" and j: "j < n" and ij: "i < j" by simp_all
    from apart [OF ij] have "(of_int (E i) :: rat) < of_int (S j)"
      by (simp only: of_int_less_iff)
    then show ?thesis
      by (simp add: st [OF j] en [OF i])
  qed
  have p7: "(\<Union>e \<in> set es. {p::int. startPage e \<le> of_int p \<and> of_int p \<le> endPage e})
              = {1 .. tp}"
  proof (intro equalityI subsetI)
    fix p :: int
    assume "p \<in> (\<Union>e \<in> set es. {p::int. startPage e \<le> of_int p \<and> of_int p \<le> endPage e})"
    then obtain i where i: "i < length es"
      and p: "startPage (es ! i) \<le> of_int p" "of_int p \<le> endPage (es ! i)"
      by (auto simp: in_set_conv_nth)
    from i len have i': "i < n" by simp
    from p have "S i \<le> p" and "p \<le> E i"
      by (simp_all add: st [OF i'] en [OF i'])
    with inside [OF i'] show "p \<in> {1 .. tp}" by simp
  next
    fix p :: int
    assume "p \<in> {1 .. tp}"
    then have p: "1 \<le> p" "p \<le> tp" by simp_all
    define i where "i = nat ((p - 1) div c)"
    have nonneg: "0 \<le> (p - 1) div c"
      using p c0 by (simp add: pos_imp_zdiv_nonneg_iff)
    then have ii: "int i = (p - 1) div c"
      by (simp add: i_def)
    have "(p - 1) div c \<le> (tp - 1) div c"
      using p c0 by (intro zdiv_mono1) simp_all
    with ii cnt have i: "i < n" by linarith
    have "int i * c \<le> p - 1" and "p - 1 < (int i + 1) * c"
      using div_bounds [OF c0, of "p - 1"] ii by simp_all
    with p have "S i \<le> p" and "p \<le> E i"
      by (simp_all add: S_def E_def)
    then have "startPage (es ! i) \<le> of_int p \<and> of_int p \<le> endPage (es ! i)"
      by (simp add: st [OF i] en [OF i])
    moreover have "es ! i \<in> set es"
      using i len by simp
    ultimately show "p \<in> (\<Union>e \<in> set es. {p::int. startPage e \<le> of_int p \<and> of_int p \<le> endPage e})"
      by blast
  qed
  from p1 p2 p3 p4 p5 p6 p7 show ?thesis
    unfolding es_def [symmetric] Let_def by blast
qed

lemma page_count_3: "parse_page_count ''Pages:          3\<newline>'' = Inr 3"
proof -
  have s: "split_on (CHR '':'') ''Pages:          3\<newline>'' = [''Pages'', ''          3\<newline>'']"
    by simp
  have t: "trim ''          3\<newline>'' = ''3''"
    by (simp add: trim_def is_space_def)
  have p: "parseInt ''3'' = Some 3"
    by (simp add: parseInt_def digit_value_def digits_value_def is_space_def Let_def)
  show ?thesis
    by (simp add: parse_page_count_def s t p)
qed

lemma paper_world_commands:
  "existsSync paper_world ''/tmp/a.pdf''"
  "exec paper_world (pdfinfo_command ''/tmp/a.pdf'') = Inr ''Pages:          3\<newline>''"
  "exec paper_world (pdftotext_command ''/tmp/a.pdf'' (Some 1) (Some 2)) = Inr ''one two''"
  "exec paper_world (pdftotext_command ''/tmp/a.pdf'' (Some 3) (Some 3)) = Inr ''three''"
  by (simp_all add: paper_world_def run_table_def pdfinfo_command_def pdftotext_command_def
      quoted_def show_number_numeral show_int_def show_nat.simps digit_char_def char_of_eq_iff)

lemma paper_world_chunks:
  "read_chunks paper_world ''/tmp/a.pdf'' 2 3 1 [] = Some (Inr [''one two'', ''three''])"
  apply (subst read_chunks.simps)
  apply (simp add: readPDFText_def paper_world_commands)
  apply (subst read_chunks.simps)
  apply (simp add: readPDFText_def paper_world_commands)
  apply (subst read_chunks.simps)
  apply simp
  done

text \<open>C5 as amended, on the document of three pages with chunks of two pages.\<close>

theorem chunk_plan_partitions_witness:
  "readPDFTextChunked paper_world ''/tmp/a.pdf'' 2 = Some (Inr ([''one two'', ''three''], 3))
   \<and> startPage (hd (chunk_entries 2 3 [''one two'', ''three''])) = 1
   \<and> endPage (last (chunk_entries 2 3 [''one two'', ''three''])) = 3
   \<and> (\<Union>e \<in> set (chunk_entries 2 3 [''one two'', ''three'']).
         {p::int. startPage e \<le> of_int p \<and> of_int p \<le> endPage e}) = {1 .. 3}"
proof -
  have plan: "readPDFTextChunked paper_world ''/tmp/a.pdf'' (of_int 2)
                = Some (Inr ([''one two'', ''three''], 3))"
    using paper_world_commands(1,2)
    by (simp add: readPDFTextChunked_def pdfinfo_command_def page_count_3 paper_world_chunks)
  from chunk_plan_partitions [OF plan] plan show ?thesis
    by (simp add: Let_def)
qed

lemma floors: "\<lfloor>3 / 2 :: rat\<rfloor> = 1" "\<lfloor>5 / 2 :: rat\<rfloor> = 2"
  by (simp_all add: floor_eq_iff)

lemma half_digits: "fraction_digits 17 (1 / 2) = ''5''"
  apply (subst fraction_digits.simps)
  apply (simp add: frac_def digit_char_def char_of_eq_iff)
  apply (subst fraction_digits.simps)
  apply simp
  done

lemma show_whole: "show_number 0 = ''0''" "show_number 1 = ''1''" "show_number 3 = ''3''"
  by (simp_all add: show_number_numeral show_int_def show_nat.simps digit_char_def char_of_eq_iff)

lemma show_fractions:
  "show_number (3 / 2) = ''1.5''"
  "show_number (5 / 2) = ''2.5''"
  by (simp_all add: show_number_def frac_def floors half_digits show_nat.simps digit_char_def
      char_of_eq_iff)

lemma pdfinfo_only_world_commands:
  "existsSync pdfinfo_only_world ''/tmp/a.pdf''"
  "exec pdfinfo_only_world (pdfinfo_command ''/tmp/a.pdf'') = Inr ''Pages:          3\<newline>''"
  "exec pdfinfo_only_world (pdftotext_command ''/tmp/a.pdf'' s e) = Inl ''Command failed''"
proof -
  show "existsSync pdfinfo_only_world ''/tmp/a.pdf''"
    by (simp add: pdfinfo_only_world_def)
  show "exec pdfinfo_only_world (pdfinfo_command ''/tmp/a.pdf'')
          = Inr ''Pages:          3\<newline>''"
    by (simp add: pdfinfo_only_world_def run_table_def)
  have "pdftotext_command ''/tmp/a.pdf'' s e \<noteq> pdfinfo_command ''/tmp/a.pdf''"
    by (cases s) (simp_all add: pdftotext_command_def pdfinfo_command_def)
  then show "exec pdfinfo_only_world (pdftotext_command ''/tmp/a.pdf'' s e) = Inl ''Command failed''"
    by (simp add: pdfinfo_only_world_def run_table_def)
qed

lemma pdfinfo_only_world_chunks:
  "read_chunks pdfinfo_only_world ''/tmp/a.pdf'' (3 / 2) 3 1 []
     = Some (Inr [extraction_failed, extraction_failed])"
  apply (subst read_chunks.simps)
  apply (simp add: readPDFText_def pdfinfo_only_world_commands)
  apply (subst read_chunks.simps)
  apply (simp add: readPDFText_def pdfinfo_only_world_commands)
  apply (subst read_chunks.simps)
  apply simp
  done

text \<open>
  Claim C5 as stated fails at the chunk size 1.5, which the handler takes as it comes
  (\<open>Math.min(1.5, 2)\<close> is 1.5): on the document of three pages the loop starts at pages 1
  and 2.5, the plan is returned, its two entries go from 1 to 1.5 and from 2.5 to 3, and
  page 2 is in neither.
\<close>

theorem chunk_plan_fraction_counterexample:
  "read_pdf_text (Suc 0) pdfinfo_only_world ''/tmp/a.pdf'' None None (Some True) (Some (3 / 2))
     = Some ([3 / 2],
             Content (chunked_response ''/tmp/a.pdf'' (3 / 2)
                        ([extraction_failed, extraction_failed], 3)))
   \<and> chunk_entries (3 / 2) 3 [extraction_failed, extraction_failed]
       = [\<lparr>chunkIndex = 0, startPage = 1, endPage = 3 / 2, chunkText = extraction_failed\<rparr>,
          \<lparr>chunkIndex = 1, startPage = 5 / 2, endPage = 3, chunkText = extraction_failed\<rparr>]
   \<and> \<not> list_ex (\<lambda>e. startPage e \<le> 2 \<and> 2 \<le> endPage e)
          (chunk_entries (3 / 2) 3 [extraction_failed, extraction_failed])"
proof -
  have plan: "readPDFTextChunked pdfinfo_only_world ''/tmp/a.pdf'' (3 / 2)
                = Some (Inr ([extraction_failed, extraction_failed], 3))"
    using pdfinfo_only_world_commands(1,2)
    by (simp add: readPDFTextChunked_def page_count_3 pdfinfo_only_world_chunks)
  have entries: "chunk_entries (3 / 2) 3 [extraction_failed, extraction_failed]
       = [\<lparr>chunkIndex = 0, startPage = 1, endPage = 3 / 2, chunkText = extraction_failed\<rparr>,
          \<lparr>chunkIndex = 1, startPage = 5 / 2, endPage = 3, chunkText = extraction_failed\<rparr>]"
    by (simp add: chunk_entries_def)
  have fits: "within_budget (chunked_response ''/tmp/a.pdf'' (3 / 2)
                        ([extraction_failed, extraction_failed], 3))"
    by (simp add: within_budget_def maxTokens_def chunked_response_def chunk_entries_def
        chunk_json_def extraction_failed_def json_quote_def json_escape_def newline_indent_def
        show_whole show_fractions Let_def numeral_2_eq_2)
  show ?thesis
    using plan fits by (simp add: read_pdf_text_def entries)
qed



subsection \<open>The search for a chunk size\<close>

text \<open>The next working size is at least 1, and it is 1 after a size of at most 2.\<close>

lemma halve:
  fixes c :: rat
  shows "0 < max 1 (of_int \<lfloor>c / 2\<rfloor> :: rat)"
    and "1 \<le> max 1 (of_int \<lfloor>c / 2\<rfloor> :: rat)"
    and "0 \<le> c \<Longrightarrow> 1 \<le> c0 \<Longrightarrow> c \<le> c0 \<Longrightarrow> max 1 (of_int \<lfloor>c / 2\<rfloor>) \<le> c0"
    and "c \<le> 2 \<Longrightarrow> max 1 (of_int \<lfloor>c / 2\<rfloor>) = (1 :: rat)"
proof -
  show "0 < max 1 (of_int \<lfloor>c / 2\<rfloor> :: rat)" and "1 \<le> max 1 (of_int \<lfloor>c / 2\<rfloor> :: rat)"
    by simp_all
  have le: "(of_int \<lfloor>c / 2\<rfloor> :: rat) \<le> c / 2"
    by (rule of_int_floor_le)
  show "max 1 (of_int \<lfloor>c / 2\<rfloor>) \<le> c0" if "0 \<le> c" "1 \<le> c0" "c \<le> c0"
    using le that by simp
  show "max 1 (of_int \<lfloor>c / 2\<rfloor>) = (1 :: rat)" if "c \<le> 2"
  proof -
    from that have "c / 2 \<le> 1" by simp
    then have "\<lfloor>c / 2\<rfloor> \<le> \<lfloor>1 :: rat\<rfloor>"
      by (rule floor_mono)
    then have "(of_int \<lfloor>c / 2\<rfloor> :: rat) \<le> 1"
      by simp
    then show ?thesis by simp
  qed
qed

text \<open>When every size of a set that the halving does not leave errs or is over the budget,
  no number of runs of the loop body suffices from a size of the set: the working size
  comes to 1, stays there, and the test \<open>currentChunkSize > 0\<close> never fails.\<close>

lemma chunk_search_stuck:
  assumes fails: "\<And>c. c \<in> S \<Longrightarrow>
      0 < c \<and> ((\<exists>msg. readPDFTextChunked w fp c = Some (Inl msg))
               \<or> (\<exists>r. readPDFTextChunked w fp c = Some (Inr r)
                        \<and> \<not> within_budget (chunked_response fp c r)))"
    and closed: "\<And>c. c \<in> S \<Longrightarrow> max 1 (of_int \<lfloor>c / 2\<rfloor>) \<in> S"
  shows "c \<in> S \<Longrightarrow> chunk_search fuel w fp c = None"
proof (induction fuel arbitrary: c)
  case 0
  with fails [of c] show ?case by simp
next
  case (Suc n)
  from closed [OF Suc.prems]
  have again: "chunk_search n w fp (max 1 (of_int \<lfloor>c / 2\<rfloor>)) = None"
    by (rule Suc.IH)
  from fails [OF Suc.prems] have pos: "0 < c" and
    "(\<exists>msg. readPDFTextChunked w fp c = Some (Inl msg))
     \<or> (\<exists>r. readPDFTextChunked w fp c = Some (Inr r)
              \<and> \<not> within_budget (chunked_response fp c r))"
    by simp_all
  then show ?case
  proof (elim disjE)
    assume "\<exists>msg. readPDFTextChunked w fp c = Some (Inl msg)"
    with again pos show ?thesis by auto
  next
    assume "\<exists>r. readPDFTextChunked w fp c = Some (Inr r)
               \<and> \<not> within_budget (chunked_response fp c r)"
    with again pos show ?thesis by auto
  qed
qed

text \<open>From a working size of at least 1 on, the sizes tried never grow, and are at least 1
  and at most the first.\<close>

lemma chunk_search_tried:
  "1 \<le> c \<Longrightarrow> chunk_search fuel w fp c = Some (tried, r) \<Longrightarrow>
     sorted_wrt (\<ge>) tried \<and> (\<forall>x \<in> set tried. 1 \<le> x \<and> x \<le> c)"
proof (induction fuel arbitrary: c tried r)
  case 0
  then show ?case by (auto split: if_splits)
next
  case (Suc n)
  have pos: "0 < c" using Suc.prems(1) by simp
  have big: "1 \<le> max 1 (of_int \<lfloor>c / 2\<rfloor> :: rat)"
    by (rule halve(2))
  have small: "max 1 (of_int \<lfloor>c / 2\<rfloor>) \<le> c"
    using Suc.prems(1) by (intro halve(3)) simp_all
  {
    fix tried' r'
    assume "chunk_search n w fp (max 1 (of_int \<lfloor>c / 2\<rfloor>)) = Some (tried', r')"
    from Suc.IH [OF big this] small Suc.prems(1)
    have "sorted_wrt (\<ge>) (c # tried') \<and> (\<forall>x \<in> set (c # tried'). 1 \<le> x \<and> x \<le> c)"
      by auto
  }
  note step = this
  from Suc.prems pos show ?case
    by (auto simp: Let_def split: option.splits sum.splits if_splits dest!: step)
qed

text \<open>When the search returns from a working size of at most 2, it has tried at most two
  sizes.\<close>

lemma chunk_search_attempts:
  assumes "chunk_search fuel w fp c = Some (tried, r)" and "0 < c" and "c \<le> 2"
  shows "length tried \<le> 2"
proof -
  have one: "tried' = [1]" if "chunk_search n w fp 1 = Some (tried', r')" for n tried' r'
  proof (cases n)
    case 0
    with that show ?thesis by simp
  next
    case (Suc m)
    show ?thesis
    proof (rule ccontr)
      assume neq: "tried' \<noteq> [1]"
      have stuck: "(\<exists>msg. readPDFTextChunked w fp 1 = Some (Inl msg))
            \<or> (\<exists>r. readPDFTextChunked w fp 1 = Some (Inr r)
                     \<and> \<not> within_budget (chunked_response fp 1 r))"
        using \<open>chunk_search n w fp 1 = Some (tried', r')\<close> neq
        unfolding Suc
        by (auto simp: Let_def split: option.splits sum.splits if_splits)
      have "chunk_search n w fp 1 = None"
        by (rule chunk_search_stuck [where S = "{1}"]) (use stuck halve(4) [of 1] in auto)
      with that show False by simp
    qed
  qed
  have next_size: "max 1 (of_int \<lfloor>c / 2\<rfloor>) = (1 :: rat)"
    using assms(3) by (rule halve(4))
  show ?thesis
  proof (cases fuel)
    case 0
    with assms(1,2) show ?thesis by simp
  next
    case (Suc n)
    from assms(1,2) show ?thesis
      unfolding Suc
      by (auto simp: Let_def next_size split: option.splits sum.splits if_splits dest!: one)
  qed
qed

text \<open>A result that comes with a size tried is the plan of the last size tried: that size
  is at least 1, \<open>readPDFTextChunked\<close> returned for it, and the response is within the
  budget.\<close>

lemma chunk_search_tried_nonempty:
  "0 < c \<Longrightarrow> chunk_search fuel w fp c = Some (tried, r) \<Longrightarrow> tried \<noteq> []"
  by (cases fuel) (auto simp: Let_def split: option.splits sum.splits if_splits)

lemma chunk_search_plan:
  assumes "chunk_search fuel w fp c = Some (tried, r)" and "tried \<noteq> []"
  shows "0 < last tried
         \<and> (\<exists>res. readPDFTextChunked w fp (last tried) = Some (Inr res)
                \<and> within_budget (chunked_response fp (last tried) res)
                \<and> r = Content (chunked_response fp (last tried) res))"
  using assms
proof (induction fuel arbitrary: c tried r)
  case 0
  then show ?case by (auto split: if_splits)
next
  case (Suc n)
  from Suc.prems have c: "0 < c"
    by (auto split: if_splits)
  have pos: "0 < max 1 (of_int \<lfloor>c / 2\<rfloor> :: rat)" by simp
  {
    fix tried' r'
    assume again: "chunk_search n w fp (max 1 (of_int \<lfloor>c / 2\<rfloor>)) = Some (tried', r')"
    from chunk_search_tried_nonempty [OF pos again] have ne: "tried' \<noteq> []" .
    from Suc.IH [OF again ne] ne
    have "0 < last (c # tried')
         \<and> (\<exists>res. readPDFTextChunked w fp (last (c # tried')) = Some (Inr res)
                \<and> within_budget (chunked_response fp (last (c # tried')) res)
                \<and> r' = Content (chunked_response fp (last (c # tried')) res))"
      by simp
  }
  note step = this
  from Suc.prems(1) c show ?case
    by (auto simp: Let_def split: option.splits sum.splits if_splits dest!: step)
qed

lemma offline_chunked:
  "readPDFTextChunked offline_world fp c
     = Some (Inl (''Failed to read PDF in chunks: PDF file not found: '' @ fp))"
  by (simp add: readPDFTextChunked_def offline_world_def)

text \<open>
  Claim C1 (the search ends within \<open>ceil(log2(initial)) + 1\<close> attempts), on a file that does
  not exist, with the requested chunk size 10: every attempt throws, the \<open>catch\<close> sets the
  working size to \<open>max(1, floor(size / 2))\<close>, and however many times the loop body may
  run, the call has not returned.
\<close>

theorem chunked_read_missing_file_never_returns:
  "read_pdf_text fuel offline_world ''/tmp/missing.pdf'' None None (Some True) (Some 10) = None"
proof -
  have "chunk_search fuel offline_world ''/tmp/missing.pdf'' 2 = None"
    by (rule chunk_search_stuck [where S = "{1, 2}"])
      (use halve(4) [of 1] halve(4) [of 2] in \<open>auto simp: offline_chunked\<close>)
  then show ?thesis
    by (simp add: read_pdf_text_def)
qed

lemma length_json_escape: "1 \<le> length (json_escape c)"
  by (simp add: json_escape_def Let_def)

lemma length_concat_escape: "length s \<le> length (concat (map json_escape s))"
proof (induction s)
  case Nil
  then show ?case by simp
next
  case (Cons c s)
  with length_json_escape [of c] show ?case by simp
qed

lemma length_json_quote: "length s \<le> length (json_quote s)"
  using length_concat_escape [of s] by (simp add: json_quote_def)

lemma length_join: "x \<in> set xs \<Longrightarrow> length x \<le> length (join sep xs)"
  by (induction sep xs rule: join.induct) auto

lemma stringify_field:
  assumes "(key, v) \<in> set kvs"
  shows "length (stringify (k + 2) v) \<le> length (stringify k (JObject kvs))"
proof -
  let ?line = "\<lambda>kv. json_quote (fst kv) @ '': '' @ stringify (k + 2) (snd kv)"
  have "?line (key, v) \<in> ?line ` set kvs"
    using assms by (rule imageI)
  then have "?line (key, v) \<in> set (map ?line kvs)"
    by simp
  from length_join [OF this, of "'','' @ newline_indent (k + 2)"]
  have "length (stringify (k + 2) v) \<le> length (join ('','' @ newline_indent (k + 2)) (map ?line kvs))"
    by simp
  moreover have "kvs \<noteq> []" using assms by auto
  ultimately show ?thesis by simp
qed

lemma stringify_item:
  assumes "v \<in> set vs"
  shows "length (stringify (k + 2) v) \<le> length (stringify k (JArray vs))"
proof -
  have "stringify (k + 2) v \<in> set (map (stringify (k + 2)) vs)"
    using assms by simp
  from length_join [OF this, of "'','' @ newline_indent (k + 2)"]
  have "length (stringify (k + 2) v)
          \<le> length (join ('','' @ newline_indent (k + 2)) (map (stringify (k + 2)) vs))" .
  moreover have "vs \<noteq> []" using assms by auto
  ultimately show ?thesis by simp
qed

text \<open>The text of a response is at least as long as the text of any of its chunks.\<close>

lemma chunked_response_length:
  assumes "t \<in> set chunks"
  shows "length t \<le> length (stringify 0 (chunked_response fp c (chunks, tp)))"
proof -
  from assms have "t \<in> set (map chunkText (chunk_entries c tp chunks))"
    by (simp only: chunkText_entries)
  then obtain e where e: "e \<in> set (chunk_entries c tp chunks)" and t: "t = chunkText e"
    by auto
  have "length t \<le> length (stringify 6 (JString t))"
    by (simp add: length_json_quote)
  also have "\<dots> \<le> length (stringify 4 (chunk_json e))"
    using stringify_field [of "''text''" "JString t" _ 4]
    by (simp add: chunk_json_def t del: stringify.simps)
  also have "\<dots> \<le> length (stringify 2 (JArray (map chunk_json (chunk_entries c tp chunks))))"
    using stringify_item [of "chunk_json e" "map chunk_json (chunk_entries c tp chunks)" 2] e
    by (simp del: stringify.simps)
  also have "\<dots> \<le> length (stringify 0 (chunked_response fp c (chunks, tp)))"
    using stringify_field [of "''chunks''" "JArray (map chunk_json (chunk_entries c tp chunks))" _ 0]
    by (simp add: chunked_response_def numeral_2_eq_2 del: stringify.simps)
  finally show ?thesis .
qed

lemma over_budget:
  assumes "t \<in> set chunks" and "60000 < length t"
  shows "\<not> within_budget (chunked_response fp c (chunks, tp))"
  using chunked_response_length [OF assms(1), of fp c tp] assms(2)
  by (simp add: within_budget_def maxTokens_def)

lemma page_count_1: "parse_page_count ''Pages:          1\<newline>'' = Inr 1"
proof -
  have s: "split_on (CHR '':'') ''Pages:          1\<newline>'' = [''Pages'', ''          1\<newline>'']"
    by simp
  have t: "trim ''          1\<newline>'' = ''1''"
    by (simp add: trim_def is_space_def)
  have p: "parseInt ''1'' = Some 1"
    by (simp add: parseInt_def digit_value_def digits_value_def is_space_def Let_def)
  show ?thesis
    by (simp add: parse_page_count_def s t p)
qed

lemma big_page_world_commands:
  "existsSync big_page_world ''/tmp/big.pdf''"
  "exec big_page_world (pdfinfo_command ''/tmp/big.pdf'') = Inr ''Pages:          1\<newline>''"
  "exec big_page_world (pdftotext_command ''/tmp/big.pdf'' (Some 1) (Some 1)) = Inr big_page"
  by (simp_all add: big_page_world_def run_table_def pdfinfo_command_def pdftotext_command_def
      quoted_def show_number_numeral show_int_def show_nat.simps digit_char_def char_of_eq_iff)

lemma big_page_world_chunked:
  assumes "1 \<le> c"
  shows "readPDFTextChunked big_page_world ''/tmp/big.pdf'' c = Some (Inr ([big_page], 1))"
proof -
  have m: "min c 1 = 1"
    using assms by simp
  have "read_chunks big_page_world ''/tmp/big.pdf'' c 1 (1 + c) [big_page] = Some (Inr [big_page])"
    using assms by (subst read_chunks.simps) simp
  then have "read_chunks big_page_world ''/tmp/big.pdf'' c 1 1 [] = Some (Inr [big_page])"
    by (subst read_chunks.simps) (simp add: m readPDFText_def big_page_world_commands)
  then show ?thesis
    using big_page_world_commands(1,2)
    by (simp add: readPDFTextChunked_def pdfinfo_command_def page_count_1)
qed

lemma big_page_over_budget:
  "\<not> within_budget (chunked_response fp c ([big_page], tp))"
  by (rule over_budget [of big_page]) (simp_all add: big_page_def)

text \<open>
  Claim C2 (when every size down to 1 is over the budget, the call returns page 1 alone,
  truncated), on the document whose only page has 80001 characters: sizes 2 and 1 both
  give a response over the budget, and however many times the loop body may run, the call
  has not returned; the lines after the loop are never reached.
\<close>

theorem chunked_read_over_budget_never_returns:
  "readPDFTextChunked big_page_world ''/tmp/big.pdf'' 2 = Some (Inr ([big_page], 1))
   \<and> \<not> within_budget (chunked_response ''/tmp/big.pdf'' 2 ([big_page], 1))
   \<and> readPDFTextChunked big_page_world ''/tmp/big.pdf'' 1 = Some (Inr ([big_page], 1))
   \<and> \<not> within_budget (chunked_response ''/tmp/big.pdf'' 1 ([big_page], 1))
   \<and> read_pdf_text fuel big_page_world ''/tmp/big.pdf'' None None (Some True) None = None"
proof -
  have "chunk_search fuel big_page_world ''/tmp/big.pdf'' 2 = None"
    by (rule chunk_search_stuck [where S = "{1, 2}"])
      (use halve(4) [of 1] halve(4) [of 2] in
        \<open>auto simp: big_page_world_chunked big_page_over_budget\<close>)
  then show ?thesis
    by (simp add: read_pdf_text_def big_page_world_chunked big_page_over_budget)
qed

text \<open>
  Claim C10, as the source has it: with a requested chunk size of 0 or less, whole or not, the loop body
  does not run (no size is tried, whatever the number of runs allowed) and the call is the
  fallback on page 1. When the file exists the result has the first 80000 characters of
  the text of page 1 and \<open>truncated\<close> set exactly when the text is longer; when it does not
  exist the result is the error \<open>PDF file not found\<close>.
\<close>

theorem chunked_read_nonpositive_size:
  assumes "c \<le> 0"
  shows "read_pdf_text fuel w filepath s e (Some True) (Some c)
           = Some ([], first_page_only w filepath)
         \<and> (existsSync w filepath \<longrightarrow>
              (\<exists>t. readPDFText w filepath (Some 1) (Some 1) = Inr t
                 \<and> first_page_only w filepath =
                       Content (JObject
                         [(''action'', JString ''read_pdf_text''),
                          (''filepath'', JString filepath),
                          (''startPage'', JNumber 1),
                          (''endPage'', JNumber 1),
                          (''text'', JString (take 80000 t)),
                          (''truncated'', JBool (80000 < length t)),
                          (''message'', JString
                             ''PDF too large, showing first page only (truncated)'')])
                 \<and> length (take 80000 t) \<le> 80000))
         \<and> (\<not> existsSync w filepath \<longrightarrow>
              first_page_only w filepath
                = error_result (''Failed to read PDF: PDF file not found: '' @ filepath))"
proof (intro conjI impI)
  have "min c 2 = c" using assms by simp
  moreover have "chunk_search fuel w filepath c = Some ([], first_page_only w filepath)"
    using assms by (cases fuel) simp_all
  ultimately show "read_pdf_text fuel w filepath s e (Some True) (Some c)
           = Some ([], first_page_only w filepath)"
    by (simp add: read_pdf_text_def)
next
  assume "existsSync w filepath"
  from readPDFText_exists [OF this, of "Some 1" "Some 1"]
  obtain t where "readPDFText w filepath (Some 1) (Some 1) = Inr t" by blast
  then show "\<exists>t. readPDFText w filepath (Some 1) (Some 1) = Inr t
                 \<and> first_page_only w filepath =
                       Content (JObject
                         [(''action'', JString ''read_pdf_text''),
                          (''filepath'', JString filepath),
                          (''startPage'', JNumber 1),
                          (''endPage'', JNumber 1),
                          (''text'', JString (take 80000 t)),
                          (''truncated'', JBool (80000 < length t)),
                          (''message'', JString
                             ''PDF too large, showing first page only (truncated)'')])
                 \<and> length (take 80000 t) \<le> 80000"
    by (simp add: first_page_only_def)
next
  assume "\<not> existsSync w filepath"
  then show "first_page_only w filepath
                = error_result (''Failed to read PDF: PDF file not found: '' @ filepath)"
    by (simp add: first_page_only_def readPDFText_def)
qed

text \<open>C10 as amended, on the document whose page has 80001 characters.\<close>

theorem chunked_read_nonpositive_size_witness:
  "read_pdf_text 0 big_page_world ''/tmp/big.pdf'' None None (Some True) (Some 0) =
     Some ([], Content (JObject
                 [(''action'', JString ''read_pdf_text''),
                  (''filepath'', JString ''/tmp/big.pdf''),
                  (''startPage'', JNumber 1),
                  (''endPage'', JNumber 1),
                  (''text'', JString (replicate 80000 (CHR ''a''))),
                  (''truncated'', JBool True),
                  (''message'', JString
                     ''PDF too large, showing first page only (truncated)'')]))"
proof -
  have c: "(0::rat) \<le> 0" by simp
  have t: "readPDFText big_page_world ''/tmp/big.pdf'' (Some 1) (Some 1) = Inr big_page"
    by (simp add: readPDFText_def big_page_world_commands)
  from chunked_read_nonpositive_size [OF c, of 0 big_page_world "''/tmp/big.pdf''" None None]
    big_page_world_commands(1) t
  show ?thesis
    by (auto simp: big_page_def)
qed

text \<open>Claim C10 as stated fails on a file that does not exist: the call returns an error
  result, not the text of page 1.\<close>

theorem chunked_read_nonpositive_size_counterexample:
  "read_pdf_text 0 offline_world ''/tmp/missing.pdf'' None None (Some True) (Some 0) =
     Some ([], IsError ''Error: Failed to read PDF: PDF file not found: /tmp/missing.pdf'')"
  by (simp add: read_pdf_text_def first_page_only_def readPDFText_def error_result_def
      offline_world_def)


subsection \<open>Cleanup\<close>

lemma unlink_each_files:
  assumes "distinct (map fst d)" and "\<forall>p \<in> set d. \<exists>bytes. snd p = File bytes"
  shows "unlink_each (map fst d) d = Inr []"
  using assms
proof (induction d)
  case Nil
  then show ?case by simp
next
  case (Cons p d)
  obtain name bytes where p: "p = (name, File bytes)"
    using Cons.prems(2) by (cases p) auto
  have "name \<notin> fst ` set d"
    using Cons.prems(1) p by simp
  then have "filter (\<lambda>q. fst q \<noteq> name) d = d"
    by (auto simp: filter_id_conv)
  then have "unlinkSync (p # d) name = Inr d"
    by (simp add: unlinkSync_def p)
  moreover have "unlink_each (map fst d) d = Inr []"
    using Cons by simp
  ultimately show ?case
    by (simp add: p)
qed

text \<open>
  Claim C9, as the source has it: on a directory of \<open>n\<close> files (no name twice, as in every
  directory), cleanup leaves the directory empty, writes the count \<open>n\<close> on the console, and returns a result that is the
  fixed message, with no count; the list of downloaded PDFs is empty afterwards.
\<close>

theorem cleanup_removes_all_files:
  assumes "distinct (map fst d)" and "\<forall>p \<in> set d. \<exists>bytes. snd p = File bytes"
  shows "cleanup_downloads d =
           (Content (JObject [(''action'', JString ''cleanup_downloads''),
                              (''message'', JString ''All downloaded PDFs have been cleaned up'')]),
            [],
            ''Cleaned up '' @ show_nat (length d) @ '' downloaded files'')
         \<and> listDownloadedPDFs w (fst (snd (cleanup_downloads d))) = []"
  using unlink_each_files [OF assms]
  by (simp add: cleanup_downloads_def cleanupDownloads_def listDownloadedPDFs_def)

text \<open>C9 as amended, on the directory of three files.\<close>

theorem cleanup_removes_all_files_witness:
  "cleanup_downloads three_files =
     (Content (JObject [(''action'', JString ''cleanup_downloads''),
                        (''message'', JString ''All downloaded PDFs have been cleaned up'')]),
      [],
      ''Cleaned up 3 downloaded files'')
   \<and> listDownloadedPDFs offline_world (fst (snd (cleanup_downloads three_files))) = []
   \<and> listDownloadedPDFs offline_world three_files
       = [''/tmp/science_mcp_downloads/a.pdf'', ''/tmp/science_mcp_downloads/b.pdf'']"
proof -
  have a: "distinct (map fst three_files)"
    by (simp add: three_files_def)
  have b: "\<forall>p \<in> set three_files. \<exists>bytes. snd p = File bytes"
    by (simp add: three_files_def)
  have n: "show_nat (length three_files) = ''3''"
    by (simp add: three_files_def show_nat.simps digit_char_def char_of_eq_iff)
  have l: "listDownloadedPDFs offline_world three_files
       = [''/tmp/science_mcp_downloads/a.pdf'', ''/tmp/science_mcp_downloads/b.pdf'']"
    by (simp add: three_files_def listDownloadedPDFs_def offline_world_def endsWith_def)
  from cleanup_removes_all_files [OF a b, of offline_world] n l show ?thesis
    by (simp add: listDownloadedPDFs_def)
qed

text \<open>Claim C9 as stated fails: the result for three files is the fixed message, the same as
  for an empty directory, and holds no count.\<close>

theorem cleanup_result_counterexample:
  "fst (cleanup_downloads three_files) =
     Content (JObject [(''action'', JString ''cleanup_downloads''),
                       (''message'', JString ''All downloaded PDFs have been cleaned up'')])
   \<and> fst (cleanup_downloads three_files) = fst (cleanup_downloads [])
   \<and> length three_files = 3"
  by (simp add: cleanup_downloads_def three_files_def)

end
